theory Spec2Isabelle
  imports Main "HOL-Library.Char_ord" "HOL-Library.Word"
begin

section \<open>Patterns\<close>

text \<open>
  The repository uses two anchored patterns: \<^verbatim>\<open>/^[a-zA-Z0-9_]+$/\<close> in the username schema of
  \<^verbatim>\<open>ui/src/app/api/generate/route.ts\<close> and \<^verbatim>\<open>'^[a-zA-Z0-9_-]+@[a-zA-Z0-9.-]+$'\<close> in the
  \<^verbatim>\<open>address_format\<close> check of the \<^verbatim>\<open>temporary_emails\<close> table. Both are a sequence of
  literal characters and of bracket expressions under \<^verbatim>\<open>+\<close>, between \<^verbatim>\<open>^\<close> and \<^verbatim>\<open>$\<close>, so a
  pattern is the list of its items and it has to match the whole string. A string is the
  list of its characters (for JavaScript, of its UTF-16 units), taken from the 256
  characters of \<^typ>\<open>char\<close>; the bracket expressions hold ASCII characters only, so no pattern
  accepts a character that is left out.
\<close>

datatype rx = Lit char | Many1 "char \<Rightarrow> bool"

fun match :: "rx list \<Rightarrow> string \<Rightarrow> bool" where
  "match [] s = (s = [])"
| "match (Lit c # r) [] = False"
| "match (Lit c # r) (x # xs) = (x = c \<and> match r xs)"
| "match (Many1 P # r) [] = False"
| "match (Many1 P # r) (x # xs) = (P x \<and> (match r xs \<or> match (Many1 P # r) xs))"

text \<open>The language of a pattern, to compare the matcher with.\<close>

fun lang :: "rx list \<Rightarrow> string set" where
  "lang [] = {[]}"
| "lang (Lit c # r) = {c # w |w. w \<in> lang r}"
| "lang (Many1 P # r) = {u @ w |u w. u \<noteq> [] \<and> (\<forall>x \<in> set u. P x) \<and> w \<in> lang r}"

text \<open>\<^verbatim>\<open>a-zA-Z0-9\<close>\<close>

definition alnum :: "char \<Rightarrow> bool" where
  "alnum c = ((CHR ''a'' \<le> c \<and> c \<le> CHR ''z'') \<or> (CHR ''A'' \<le> c \<and> c \<le> CHR ''Z'')
     \<or> (CHR ''0'' \<le> c \<and> c \<le> CHR ''9''))"

text \<open>\<^verbatim>\<open>[a-zA-Z0-9_]\<close>, \<^verbatim>\<open>[a-zA-Z0-9_-]\<close> and \<^verbatim>\<open>[a-zA-Z0-9.-]\<close>\<close>

definition word_char :: "char \<Rightarrow> bool" where
  "word_char c = (alnum c \<or> c = CHR ''_'')"

definition local_char :: "char \<Rightarrow> bool" where
  "local_char c = (alnum c \<or> c = CHR ''_'' \<or> c = CHR ''-'')"

definition domain_char :: "char \<Rightarrow> bool" where
  "domain_char c = (alnum c \<or> c = CHR ''.'' \<or> c = CHR ''-'')"


section \<open>JSON values\<close>

text \<open>
  A JSON value, as \<^verbatim>\<open>JSON.parse\<close> returns it and as a \<^verbatim>\<open>JSONB\<close> column holds it. A number is
  kept as an integer: all that is asked of a number here is whether it is zero. An object
  is the list of its properties.
\<close>

datatype json = JNull | JBool bool | JNum int | JStr string | JArr "json list"
  | JObj "(string \<times> json) list"

section \<open>The tables\<close>

text \<open>
  The two migrations define the store: \<^verbatim>\<open>temporary_emails\<close> and \<^verbatim>\<open>received_emails\<close>. A table
  is the list of its rows; a column that may be \<^verbatim>\<open>NULL\<close> holds an option. What the data
  definitions mean is what the database does with a statement, so the model is the
  statements on the two tables, each checked against the declared types, defaults and
  constraints: the \<^verbatim>\<open>INSERT\<close> of one row into either table, \<^verbatim>\<open>DELETE\<close> from either table, and
  the \<^verbatim>\<open>UPDATE\<close> of \<^verbatim>\<open>is_active\<close>.
\<close>

subsection \<open>Column types and values\<close>

text \<open>\<^verbatim>\<open>UUID\<close> is 128 bits; \<^verbatim>\<open>TIMESTAMP\<close> counts microseconds.\<close>

type_synonym uuid = "128 word"

type_synonym timestamp = int

text \<open>
  What an \<^verbatim>\<open>INSERT\<close> gives for a column: nothing (the column is left out, or \<^verbatim>\<open>DEFAULT\<close>),
  \<^verbatim>\<open>NULL\<close>, or a value.
\<close>

datatype 'a col = Default | Null | Val 'a

text \<open>The errors a statement on these tables can end with, with the constraint or column.\<close>

datatype sql_error =
    String_data_right_truncation
  | Numeric_value_out_of_range
  | Not_null_violation string
  | Check_violation string
  | Unique_violation string
  | Foreign_key_violation string

text \<open>The value stored for a column: its default when nothing is given.\<close>

fun supplied :: "'a option \<Rightarrow> 'a col \<Rightarrow> 'a option" where
  "supplied d Default = d"
| "supplied d Null = None"
| "supplied d (Val x) = Some x"

text \<open>
  Storing into \<^verbatim>\<open>VARCHAR(n)\<close>: a longer string is an error, unless the characters past \<open>n\<close>
  are all spaces, when it is cut to \<open>n\<close>.
\<close>

fun varchar :: "nat \<Rightarrow> string option \<Rightarrow> sql_error + string option" where
  "varchar n None = Inr None"
| "varchar n (Some s) =
     (if length s \<le> n then Inr (Some s)
      else if \<forall>c \<in> set (drop n s). c = CHR '' '' then Inr (Some (take n s))
      else Inl String_data_right_truncation)"

text \<open>Storing into \<^verbatim>\<open>INTEGER\<close>, which is 32 bits and signed.\<close>

fun int4 :: "int option \<Rightarrow> sql_error + int option" where
  "int4 None = Inr None"
| "int4 (Some n) =
     (if - 2147483648 \<le> n \<and> n \<le> 2147483647 then Inr (Some n) else Inl Numeric_value_out_of_range)"

text \<open>\<^verbatim>\<open>NOT NULL\<close> on the named column.\<close>

fun not_null :: "string \<Rightarrow> 'a option \<Rightarrow> sql_error + 'a" where
  "not_null column None = Inl (Not_null_violation column)"
| "not_null column (Some x) = Inr x"

text \<open>A \<^verbatim>\<open>CHECK\<close> is violated only when its condition is false: true and \<^verbatim>\<open>NULL\<close> both pass.\<close>

definition check_passes :: "bool option \<Rightarrow> bool" where
  "check_passes condition = (condition \<noteq> Some False)"

text \<open>The next step of a statement, unless an error has ended it.\<close>

fun and_then :: "'e + 'a \<Rightarrow> ('a \<Rightarrow> 'e + 'b) \<Rightarrow> 'e + 'b" where
  "and_then (Inl e) f = Inl e"
| "and_then (Inr x) f = f x"

subsection \<open>Rows\<close>

text \<open>
  \<^verbatim>\<open>CREATE TABLE temporary_emails\<close>: \<^verbatim>\<open>id UUID PRIMARY KEY\<close>, \<^verbatim>\<open>address VARCHAR(255) UNIQUE NOT NULL\<close>,
  \<^verbatim>\<open>username VARCHAR(100)\<close>, \<^verbatim>\<open>created_at TIMESTAMP NOT NULL\<close>, \<^verbatim>\<open>expires_at TIMESTAMP NOT NULL\<close>,
  \<^verbatim>\<open>is_active BOOLEAN\<close>.
\<close>

record temporary_email =
  id_temporary :: uuid
  address :: string
  username :: "string option"
  created_at :: timestamp
  expires_at :: timestamp
  is_active :: "bool option"

text \<open>
  \<^verbatim>\<open>CREATE TABLE received_emails\<close>: \<^verbatim>\<open>id UUID PRIMARY KEY\<close>, \<^verbatim>\<open>temp_email_id UUID NOT NULL\<close>,
  \<^verbatim>\<open>from_address VARCHAR(255) NOT NULL\<close>, \<^verbatim>\<open>subject VARCHAR(500)\<close>, \<^verbatim>\<open>body_plain TEXT\<close>,
  \<^verbatim>\<open>body_html TEXT\<close>, \<^verbatim>\<open>headers JSONB\<close>, \<^verbatim>\<open>received_at TIMESTAMP NOT NULL\<close>,
  \<^verbatim>\<open>size_bytes INTEGER\<close>.
\<close>

record received_email =
  id_received :: uuid
  temp_email_id :: uuid
  from_address :: string
  subject :: "string option"
  body_plain :: "string option"
  body_html :: "string option"
  headers :: "json option"
  received_at :: timestamp
  size_bytes :: "int option"

record db =
  temporary_emails :: "temporary_email list"
  received_emails :: "received_email list"

definition empty_db :: db where
  "empty_db = \<lparr>temporary_emails = [], received_emails = []\<rparr>"

text \<open>The values of an \<^verbatim>\<open>INSERT\<close>, one per column.\<close>

record temporary_email_values =
  id_temporary_in :: "uuid col"
  address_in :: "string col"
  username_in :: "string col"
  created_at_in :: "timestamp col"
  expires_at_in :: "timestamp col"
  is_active_in :: "bool col"

record received_email_values =
  id_received_in :: "uuid col"
  temp_email_id_in :: "uuid col"
  from_address_in :: "string col"
  subject_in :: "string col"
  body_plain_in :: "string col"
  body_html_in :: "string col"
  headers_in :: "json col"
  received_at_in :: "timestamp col"
  size_bytes_in :: "int col"

text \<open>
  What the server draws while it runs one statement: the value of \<^verbatim>\<open>gen_random_uuid()\<close> and of
  \<^verbatim>\<open>NOW()\<close>.
\<close>

record draw =
  gen_random_uuid :: uuid
  NOW :: timestamp

subsection \<open>Constraints\<close>

text \<open>\<^verbatim>\<open>'^[a-zA-Z0-9_-]+@[a-zA-Z0-9.-]+$'\<close>\<close>

definition address_pattern :: "rx list" where
  "address_pattern = [Many1 local_char, Lit CHR ''@'', Many1 domain_char]"

text \<open>\<^verbatim>\<open>CONSTRAINT address_format CHECK (address ~ '^[a-zA-Z0-9_-]+@[a-zA-Z0-9.-]+$')\<close>\<close>

definition address_format :: "temporary_email \<Rightarrow> bool option" where
  "address_format t = Some (match address_pattern (address t))"

text \<open>
  \<^verbatim>\<open>CONSTRAINT reasonable_size CHECK (size_bytes <= 10485760)\<close>: the comparison is \<^verbatim>\<open>NULL\<close>
  when \<^verbatim>\<open>size_bytes\<close> is.
\<close>

definition reasonable_size :: "received_email \<Rightarrow> bool option" where
  "reasonable_size r = map_option (\<lambda>n. n \<le> 10485760) (size_bytes r)"

subsection \<open>Statements\<close>

text \<open>
  The row an \<^verbatim>\<open>INSERT INTO temporary_emails\<close> is about to store: the values are stored into
  the column types, with \<^verbatim>\<open>DEFAULT gen_random_uuid()\<close>, \<^verbatim>\<open>DEFAULT NOW()\<close> and
  \<^verbatim>\<open>DEFAULT TRUE\<close>, and then \<^verbatim>\<open>NOT NULL\<close> is checked.
\<close>

definition temporary_emails_row :: "draw \<Rightarrow> temporary_email_values \<Rightarrow> sql_error + temporary_email" where
  "temporary_emails_row d v =
     and_then (varchar 255 (supplied None (address_in v))) (\<lambda>a.
     and_then (varchar 100 (supplied None (username_in v))) (\<lambda>u.
     and_then (not_null ''id'' (supplied (Some (gen_random_uuid d)) (id_temporary_in v))) (\<lambda>i.
     and_then (not_null ''address'' a) (\<lambda>a.
     and_then (not_null ''created_at'' (supplied (Some (NOW d)) (created_at_in v))) (\<lambda>c.
     and_then (not_null ''expires_at'' (supplied None (expires_at_in v))) (\<lambda>e.
       Inr \<lparr>id_temporary = i, address = a, username = u, created_at = c, expires_at = e,
            is_active = supplied (Some True) (is_active_in v)\<rparr>))))))"

text \<open>
  \<^verbatim>\<open>INSERT INTO temporary_emails\<close> of one row: the row, then the check, the primary key and
  \<^verbatim>\<open>UNIQUE\<close> on \<^verbatim>\<open>address\<close>.
\<close>

definition insert_temporary_emails :: "draw \<Rightarrow> temporary_email_values \<Rightarrow> db \<Rightarrow> sql_error + db" where
  "insert_temporary_emails d v s =
     and_then (temporary_emails_row d v) (\<lambda>row.
       if \<not> check_passes (address_format row) then Inl (Check_violation ''address_format'')
       else if \<exists>t \<in> set (temporary_emails s). id_temporary t = id_temporary row
         then Inl (Unique_violation ''temporary_emails_pkey'')
       else if \<exists>t \<in> set (temporary_emails s). address t = address row
         then Inl (Unique_violation ''temporary_emails_address_key'')
       else Inr (s\<lparr>temporary_emails := temporary_emails s @ [row]\<rparr>))"

text \<open>
  The row an \<^verbatim>\<open>INSERT INTO received_emails\<close> is about to store: the column types,
  \<^verbatim>\<open>DEFAULT gen_random_uuid()\<close> and \<^verbatim>\<open>DEFAULT NOW()\<close>, then \<^verbatim>\<open>NOT NULL\<close>.
\<close>

definition received_emails_row :: "draw \<Rightarrow> received_email_values \<Rightarrow> sql_error + received_email" where
  "received_emails_row d v =
     and_then (varchar 255 (supplied None (from_address_in v))) (\<lambda>f.
     and_then (varchar 500 (supplied None (subject_in v))) (\<lambda>sj.
     and_then (int4 (supplied None (size_bytes_in v))) (\<lambda>sz.
     and_then (not_null ''id'' (supplied (Some (gen_random_uuid d)) (id_received_in v))) (\<lambda>i.
     and_then (not_null ''temp_email_id'' (supplied None (temp_email_id_in v))) (\<lambda>owner.
     and_then (not_null ''from_address'' f) (\<lambda>f.
     and_then (not_null ''received_at'' (supplied (Some (NOW d)) (received_at_in v))) (\<lambda>at.
       Inr \<lparr>id_received = i, temp_email_id = owner, from_address = f, subject = sj,
            body_plain = supplied None (body_plain_in v),
            body_html = supplied None (body_html_in v),
            headers = supplied None (headers_in v),
            received_at = at, size_bytes = sz\<rparr>)))))))"

text \<open>
  \<^verbatim>\<open>INSERT INTO received_emails\<close> of one row: the row, then the check, the primary key, and
  last the reference to \<^verbatim>\<open>temporary_emails(id)\<close>.
\<close>

definition insert_received_emails :: "draw \<Rightarrow> received_email_values \<Rightarrow> db \<Rightarrow> sql_error + db" where
  "insert_received_emails d v s =
     and_then (received_emails_row d v) (\<lambda>row.
       if \<not> check_passes (reasonable_size row) then Inl (Check_violation ''reasonable_size'')
       else if \<exists>r \<in> set (received_emails s). id_received r = id_received row
         then Inl (Unique_violation ''received_emails_pkey'')
       else if \<not> (\<exists>t \<in> set (temporary_emails s). id_temporary t = temp_email_id row)
         then Inl (Foreign_key_violation ''received_emails_temp_email_id_fkey'')
       else Inr (s\<lparr>received_emails := received_emails s @ [row]\<rparr>))"

text \<open>
  \<^verbatim>\<open>DELETE FROM temporary_emails WHERE p\<close>. \<^verbatim>\<open>ON DELETE CASCADE\<close>: the rows of
  \<^verbatim>\<open>received_emails\<close> that reference a deleted row go with it, in the same statement.
\<close>

definition delete_temporary_emails :: "(temporary_email \<Rightarrow> bool) \<Rightarrow> db \<Rightarrow> db" where
  "delete_temporary_emails p s =
     \<lparr>temporary_emails = filter (\<lambda>t. \<not> p t) (temporary_emails s),
      received_emails =
        filter (\<lambda>r. \<not> (\<exists>t \<in> set (temporary_emails s). p t \<and> id_temporary t = temp_email_id r))
          (received_emails s)\<rparr>"

text \<open>\<^verbatim>\<open>DELETE FROM received_emails WHERE p\<close>\<close>

definition delete_received_emails :: "(received_email \<Rightarrow> bool) \<Rightarrow> db \<Rightarrow> db" where
  "delete_received_emails p s = s\<lparr>received_emails := filter (\<lambda>r. \<not> p r) (received_emails s)\<rparr>"

text \<open>\<^verbatim>\<open>UPDATE temporary_emails SET is_active = b WHERE p\<close>; no constraint reads the column.\<close>

definition update_is_active :: "bool option \<Rightarrow> (temporary_email \<Rightarrow> bool) \<Rightarrow> db \<Rightarrow> db" where
  "update_is_active b p s =
     s\<lparr>temporary_emails := map (\<lambda>t. if p t then t\<lparr>is_active := b\<rparr> else t) (temporary_emails s)\<rparr>"

datatype statement =
    Insert_temporary_emails draw temporary_email_values
  | Insert_received_emails draw received_email_values
  | Delete_temporary_emails "temporary_email \<Rightarrow> bool"
  | Delete_received_emails "received_email \<Rightarrow> bool"
  | Update_is_active "bool option" "temporary_email \<Rightarrow> bool"

fun execute :: "statement \<Rightarrow> db \<Rightarrow> sql_error + db" where
  "execute (Insert_temporary_emails d v) s = insert_temporary_emails d v s"
| "execute (Insert_received_emails d v) s = insert_received_emails d v s"
| "execute (Delete_temporary_emails p) s = Inr (delete_temporary_emails p s)"
| "execute (Delete_received_emails p) s = Inr (delete_received_emails p s)"
| "execute (Update_is_active b p) s = Inr (update_is_active b p s)"

text \<open>A statement that ends with an error leaves the store as it was.\<close>

definition commit :: "statement \<Rightarrow> db \<Rightarrow> db" where
  "commit st s = (case execute st s of Inl e \<Rightarrow> s | Inr s' \<Rightarrow> s')"

text \<open>The store after a history of statements on the empty tables.\<close>

definition run :: "statement list \<Rightarrow> db" where
  "run history = fold commit history empty_db"

subsection \<open>What the constraints say of a store\<close>

text \<open>
  The primary keys, \<^verbatim>\<open>UNIQUE\<close> on \<^verbatim>\<open>address\<close>, the two checks and the reference from
  \<^verbatim>\<open>received_emails.temp_email_id\<close> to \<^verbatim>\<open>temporary_emails.id\<close>, as a property of a store.
\<close>

definition constraints :: "db \<Rightarrow> bool" where
  "constraints s =
     (distinct (map id_temporary (temporary_emails s))
      \<and> distinct (map address (temporary_emails s))
      \<and> list_all check_passes (map address_format (temporary_emails s))
      \<and> distinct (map id_received (received_emails s))
      \<and> list_all check_passes (map reasonable_size (received_emails s))
      \<and> set (map temp_email_id (received_emails s)) \<subseteq> set (map id_temporary (temporary_emails s)))"

section \<open>The mailbox store\<close>

text \<open>
  The operations of the Mailbox Store and of the Address Lifecycle Manager live in the
  repository's back-end crates, which are not among the sources: the sources hold the two
  tables they run on and the front-end routes that call them. The operations below are
  therefore written from the specification, on top of the statements of the tables above.
\<close>

text \<open>Modelled from the spec: the failures the operations of the store report, which the
  missing back-end crate defines; \<open>Refused\<close> carries an error of the database that the
  specification gives no name of its own.
\<close>

datatype store_error =
    UnknownOwner
  | NotFound
  | Expired
  | AllocationFailed
  | Refused sql_error

text \<open>Modelled from the spec: what "currently active" means for an address row, which the
  back-end crate decides and the sources do not show. A row is active when \<^verbatim>\<open>is_active\<close> is
  true; \<^verbatim>\<open>NULL\<close>, which the table allows, does not count as active.
\<close>

definition active :: "temporary_email \<Rightarrow> bool" where
  "active t = (is_active t = Some True)"

text \<open>Modelled from the spec: the persisting step of \<^verbatim>\<open>create(owner_hint?)\<close> (\<^verbatim>\<open>insert_address\<close>, an
  atomic single-row insert), missing with the back-end crate. It "sets a fixed TTL" and
  "persists an active record": the id, the creation time and \<^verbatim>\<open>is_active\<close> are left to the
  table's defaults.
\<close>

definition insert_address :: "draw \<Rightarrow> int \<Rightarrow> string option \<Rightarrow> string \<Rightarrow> db \<Rightarrow> sql_error + db" where
  "insert_address d ttl owner_hint a s =
     insert_temporary_emails d
       \<lparr>id_temporary_in = Default, address_in = Val a,
        username_in = (case owner_hint of None \<Rightarrow> Null | Some h \<Rightarrow> Val h),
        created_at_in = Default, expires_at_in = Val (NOW d + ttl), is_active_in = Default\<rparr> s"

text \<open>Modelled from the spec: \<^verbatim>\<open>create(owner_hint?)\<close> of the Address Lifecycle Manager, missing
  with the back-end crate. It "retries address-string generation on uniqueness-constraint
  collision with a bounded retry count before failing with AllocationFailed": the
  generated strings are the list of candidates, tried in order.
\<close>

fun create :: "draw \<Rightarrow> int \<Rightarrow> string option \<Rightarrow> string list \<Rightarrow> db \<Rightarrow> store_error + db" where
  "create d ttl owner_hint [] s = Inl AllocationFailed"
| "create d ttl owner_hint (a # candidates) s =
     (case insert_address d ttl owner_hint a s of
        Inr s' \<Rightarrow> Inr s'
      | Inl (Unique_violation c) \<Rightarrow> create d ttl owner_hint candidates s
      | Inl e \<Rightarrow> Inl (Refused e))"

text \<open>Modelled from the spec: \<^verbatim>\<open>resolve(address)\<close> of the Address Lifecycle Manager, missing with
  the back-end crate. It "looks up by exact string match" and "returns Expired (distinct
  from NotFound) if the record exists but is_active=false or now > expires_at".
\<close>

definition resolve :: "timestamp \<Rightarrow> string \<Rightarrow> db \<Rightarrow> store_error + temporary_email" where
  "resolve now a s =
     (case find (\<lambda>t. address t = a) (temporary_emails s) of
        None \<Rightarrow> Inl NotFound
      | Some t \<Rightarrow> if \<not> active t \<or> now > expires_at t then Inl Expired else Inr t)"

text \<open>Modelled from the spec: \<^verbatim>\<open>insert_message\<close> of the Mailbox Store, missing with the back-end
  crate: an atomic single-row insert that "fails with UnknownOwner if owner_address_id
  does not reference an existing, currently active address at insert time". The insert
  itself is the statement on \<^verbatim>\<open>received_emails\<close>, whose foreign key refuses a missing owner
  as well.
\<close>

definition insert_message :: "draw \<Rightarrow> received_email_values \<Rightarrow> db \<Rightarrow> store_error + db" where
  "insert_message d v s =
     (case temp_email_id_in v of
        Val owner \<Rightarrow>
          if \<exists>t \<in> set (temporary_emails s). id_temporary t = owner \<and> active t then
            (case insert_received_emails d v s of
               Inr s' \<Rightarrow> Inr s'
             | Inl (Foreign_key_violation c) \<Rightarrow> Inl UnknownOwner
             | Inl e \<Rightarrow> Inl (Refused e))
          else Inl UnknownOwner
      | _ \<Rightarrow> Inl UnknownOwner)"

text \<open>Modelled from the spec: \<^verbatim>\<open>deactivate(address)\<close> of the Address Lifecycle Manager, missing
  with the back-end crate: "idempotent; sets is_active=false. Triggers cascade deletion of
  owned messages as part of the same atomic operation". The two statements are one step:
  no store between them is ever seen.
\<close>

definition deactivate :: "string \<Rightarrow> db \<Rightarrow> db" where
  "deactivate a s =
     delete_received_emails
       (\<lambda>r. \<exists>t \<in> set (temporary_emails s). address t = a \<and> id_temporary t = temp_email_id r)
       (update_is_active (Some False) (\<lambda>t. address t = a) s)"

text \<open>Modelled from the spec: \<^verbatim>\<open>get_message(address, id)\<close> of the Mailbox Store, missing with the
  back-end crate: the full record or \<^verbatim>\<open>NotFound\<close>; it "must additionally verify the message's
  owner_address_id matches the resolved address". An address that does not resolve gives
  \<^verbatim>\<open>NotFound\<close> too, as the query API does not tell the two apart.
\<close>

definition get_message :: "timestamp \<Rightarrow> string \<Rightarrow> uuid \<Rightarrow> db \<Rightarrow> store_error + received_email" where
  "get_message now a message_id s =
     (case resolve now a s of
        Inl e \<Rightarrow> Inl NotFound
      | Inr t \<Rightarrow>
          (case find (\<lambda>r. id_received r = message_id) (received_emails s) of
             None \<Rightarrow> Inl NotFound
           | Some r \<Rightarrow> if temp_email_id r = id_temporary t then Inr r else Inl NotFound))"

text \<open>Modelled from the spec: \<^verbatim>\<open>delete_message(address, id)\<close> of the Mailbox Store, missing with
  the back-end crate: "scoped to the owning address"; the API answers with the deleted
  record, or not found.
\<close>

definition delete_message :: "string \<Rightarrow> uuid \<Rightarrow> db \<Rightarrow> store_error + received_email \<times> db" where
  "delete_message a message_id s =
     (case find (\<lambda>t. address t = a) (temporary_emails s) of
        None \<Rightarrow> Inl NotFound
      | Some t \<Rightarrow>
          (case find (\<lambda>r. id_received r = message_id \<and> temp_email_id r = id_temporary t)
                  (received_emails s) of
             None \<Rightarrow> Inl NotFound
           | Some r \<Rightarrow>
               Inr (r, delete_received_emails
                         (\<lambda>r. id_received r = message_id \<and> temp_email_id r = id_temporary t) s)))"

text \<open>Modelled from the spec: \<^verbatim>\<open>delete_all(address)\<close> of the Mailbox Store, missing with the
  back-end crate: it returns the number of messages deleted, and is "scoped to the owning
  address".
\<close>

definition delete_all :: "string \<Rightarrow> db \<Rightarrow> store_error + nat \<times> db" where
  "delete_all a s =
     (case find (\<lambda>t. address t = a) (temporary_emails s) of
        None \<Rightarrow> Inl NotFound
      | Some t \<Rightarrow>
          Inr (length (filter (\<lambda>r. temp_email_id r = id_temporary t) (received_emails s)),
               delete_received_emails (\<lambda>r. temp_email_id r = id_temporary t) s))"

text \<open>Modelled from the spec: \<^verbatim>\<open>sweep_expired()\<close> of the Mailbox Store, missing with the back-end
  crate: it "finds all addresses with is_active=true and now > expires_at, deactivates
  each and cascades message deletion, in a bounded batch", and returns how many it
  deactivated.
\<close>

definition sweep_expired :: "timestamp \<Rightarrow> nat \<Rightarrow> db \<Rightarrow> nat \<times> db" where
  "sweep_expired now batch s =
     (let expired = take batch (filter (\<lambda>t. active t \<and> now > expires_at t) (temporary_emails s))
      in (length expired, fold (\<lambda>t. deactivate (address t)) expired s))"

text \<open>Modelled from the spec: the operations that change the store, as the callers of the
  missing back-end crate issue them, each with its arguments.
\<close>

datatype store_op =
    Create draw int "string option" "string list"
  | Insert_message draw received_email_values
  | Deactivate string
  | Delete_message string uuid
  | Delete_all string
  | Sweep_expired timestamp nat

text \<open>Modelled from the spec: the store after one operation. "Any multi-step failure must
  leave the Store exactly as it was before the operation began", so an operation that
  fails changes nothing.
\<close>

fun apply_op :: "store_op \<Rightarrow> db \<Rightarrow> db" where
  "apply_op (Create d ttl owner_hint candidates) s =
     (case create d ttl owner_hint candidates s of Inl e \<Rightarrow> s | Inr s' \<Rightarrow> s')"
| "apply_op (Insert_message d v) s =
     (case insert_message d v s of Inl e \<Rightarrow> s | Inr s' \<Rightarrow> s')"
| "apply_op (Deactivate a) s = deactivate a s"
| "apply_op (Delete_message a message_id) s =
     (case delete_message a message_id s of Inl e \<Rightarrow> s | Inr (r, s') \<Rightarrow> s')"
| "apply_op (Delete_all a) s =
     (case delete_all a s of Inl e \<Rightarrow> s | Inr (n, s') \<Rightarrow> s')"
| "apply_op (Sweep_expired now batch) s = snd (sweep_expired now batch s)"

text \<open>Modelled from the spec: the stores that can be observed, each the outcome of a sequence
  of operations on the empty store.
\<close>

definition after :: "store_op list \<Rightarrow> db" where
  "after ops = fold apply_op ops empty_db"

text \<open>Modelled from the spec: what the specification asks of every store that can be
  observed, in the words of its section 4.1: no "orphaned messages surviving a deactivated
  mailbox". Every stored message is owned by rows that are active.
\<close>

definition owners_active :: "db \<Rightarrow> bool" where
  "owners_active s =
     (\<forall>r \<in> set (received_emails s). \<forall>t \<in> set (temporary_emails s).
        id_temporary t = temp_email_id r \<longrightarrow> active t)"

section \<open>The front-end routes\<close>

subsection \<open>Parsed values as JavaScript sees them\<close>

text \<open>JavaScript's truthiness, which decides \<^verbatim>\<open>x || y\<close> and \<^verbatim>\<open>if (x)\<close>.\<close>

fun truthy :: "json \<Rightarrow> bool" where
  "truthy JNull = False"
| "truthy (JBool b) = b"
| "truthy (JNum n) = (n \<noteq> 0)"
| "truthy (JStr s) = (s \<noteq> [])"
| "truthy (JArr xs) = True"
| "truthy (JObj kvs) = True"

text \<open>
  The property read \<^verbatim>\<open>x.error\<close> on a parsed value: it throws a TypeError on \<^verbatim>\<open>null\<close>, and is
  \<^verbatim>\<open>undefined\<close> on everything that is not an object holding the key.
\<close>

datatype lookup = TypeError | Undefined | Found json

fun dot_error :: "json \<Rightarrow> lookup" where
  "dot_error JNull = TypeError"
| "dot_error (JObj kvs) = (case map_of kvs ''error'' of None \<Rightarrow> Undefined | Some v \<Rightarrow> Found v)"
| "dot_error j = Undefined"

text \<open>\<^verbatim>\<open>x.error || "literal"\<close>, once the read has not thrown.\<close>

fun or_default :: "lookup \<Rightarrow> string \<Rightarrow> json" where
  "or_default (Found v) d = (if truthy v then v else JStr d)"
| "or_default l d = JStr d"

subsection \<open>Requests, responses and the platform\<close>

text \<open>The argument of a \<^verbatim>\<open>fetch\<close> call; \<open>fetch_body\<close> is the value given to \<^verbatim>\<open>JSON.stringify\<close>.\<close>

record fetch_call =
  fetch_url :: string
  fetch_method :: string
  fetch_headers :: "(string \<times> string) list"
  fetch_body :: "json option"

text \<open>What the back end answered: \<^verbatim>\<open>backendResponse.status\<close> and \<^verbatim>\<open>await backendResponse.text()\<close>.\<close>

record backend_response =
  backendStatus :: nat
  responseText :: string

text \<open>\<^verbatim>\<open>backendResponse.ok\<close>\<close>

definition ok :: "backend_response \<Rightarrow> bool" where
  "ok r = (200 \<le> backendStatus r \<and> backendStatus r \<le> 299)"

text \<open>The response of a handler: its status and the value of its JSON body.\<close>

record response =
  status :: nat
  content :: json

text \<open>
  \<^verbatim>\<open>NextResponse.json(content, {status})\<close>. Building a response throws (\<open>None\<close>) when the
  status is outside 200 to 599, or is 204, 205 or 304, which carry no body. The statuses
  the handlers write themselves (200, 400, 500) always pass; a status taken from the back
  end's answer may not.
\<close>

definition NextResponse_json :: "json \<Rightarrow> nat \<Rightarrow> response option" where
  "NextResponse_json c st =
     (if 200 \<le> st \<and> st \<le> 599 \<and> st \<noteq> 204 \<and> st \<noteq> 205 \<and> st \<noteq> 304
      then Some \<lparr>status = st, content = c\<rparr> else None)"

text \<open>
  What a route handler runs on and does not define itself: \<^verbatim>\<open>JSON.parse\<close> (\<open>None\<close> when it
  throws a SyntaxError; \<^verbatim>\<open>request.json()\<close> parses the request's text the same way), the message
  the schema library gives a value of the wrong type, \<^verbatim>\<open>process.env.BACKEND_URL\<close>, and
  \<^verbatim>\<open>fetch\<close> (\<open>None\<close> when the call or the read of the text rejects).
\<close>

record platform =
  JSON_parse :: "string \<Rightarrow> json option"
  invalid_type_message :: "json \<Rightarrow> string"
  BACKEND_URL :: "string option"
  fetch :: "fetch_call \<Rightarrow> backend_response option"

subsection \<open>\<^verbatim>\<open>POST /api/generate\<close>\<close>

text \<open>\<^verbatim>\<open>/^[a-zA-Z0-9_]+$/\<close>\<close>

definition username_regex :: "rx list" where
  "username_regex = [Many1 word_char]"

text \<open>
  The checks of \<^verbatim>\<open>z.string().min(3, ...).max(20, ...).regex(...)\<close>: each failing check adds
  its message, in the order of the checks.
\<close>

definition username_issues :: "string \<Rightarrow> string list" where
  "username_issues u =
     (if length u < 3 then [''Username must be at least 3 characters long.''] else []) @
     (if length u > 20 then [''Username must be no more than 20 characters long.''] else []) @
     (if \<not> match username_regex u
      then [''Username can only contain letters, numbers, and underscores.''] else [])"

text \<open>
  \<^verbatim>\<open>GenerateEmailRequestSchema.safeParse(body)\<close>. On failure the result is
  \<^verbatim>\<open>error.flatten().fieldErrors.username\<close> (\<open>None\<close> for \<^verbatim>\<open>undefined\<close>: the body is not an
  object); on success it is \<^verbatim>\<open>data.username\<close> (\<open>None\<close> for \<^verbatim>\<open>undefined\<close>: the key is
  missing). \<^verbatim>\<open>.optional().nullable()\<close> accepts the missing key and \<^verbatim>\<open>null\<close>.
\<close>

fun safeParse :: "platform \<Rightarrow> json \<Rightarrow> string list option + json option" where
  "safeParse pf (JObj kvs) =
     (case map_of kvs ''username'' of
        None \<Rightarrow> Inr None
      | Some JNull \<Rightarrow> Inr (Some JNull)
      | Some (JStr u) \<Rightarrow>
          (if username_issues u = [] then Inr (Some (JStr u)) else Inl (Some (username_issues u)))
      | Some v \<Rightarrow> Inl (Some [invalid_type_message pf v]))"
| "safeParse pf j = Inl None"

text \<open>\<^verbatim>\<open>username || null\<close>\<close>

fun or_null :: "json option \<Rightarrow> json" where
  "or_null None = JNull"
| "or_null (Some v) = (if truthy v then v else JNull)"

text \<open>\<^verbatim>\<open>process.env.BACKEND_URL.replace(/\/$/, "")\<close>\<close>

definition remove_trailing_slash :: "string \<Rightarrow> string" where
  "remove_trailing_slash u = (if u \<noteq> [] \<and> last u = CHR ''/'' then butlast u else u)"

text \<open>
  The call \<^verbatim>\<open>fetch(backendUrl, {method: "POST", headers, body})\<close>, with
  \<^verbatim>\<open>backendUrl\<close> the base URL followed by \<^verbatim>\<open>/api/email/generate\<close>, and the body \<^verbatim>\<open>{username: username || null}\<close>.
\<close>

definition generate_request :: "string \<Rightarrow> json option \<Rightarrow> fetch_call" where
  "generate_request backend_url name =
     \<lparr>fetch_url = remove_trailing_slash backend_url @ ''/api/email/generate'',
      fetch_method = ''POST'',
      fetch_headers = [(''Content-Type'', ''application/json'')],
      fetch_body = Some (JObj [(''username'', or_null name)])\<rparr>"

text \<open>The \<^verbatim>\<open>catch\<close> of \<^verbatim>\<open>POST /api/generate\<close>, for an error that is not a SyntaxError.\<close>

definition internal_server_error :: response where
  "internal_server_error = \<lparr>status = 500, content = JObj [(''error'', JStr ''Internal Server Error'')]\<rparr>"

text \<open>
  The handler after \<^verbatim>\<open>fetch\<close> has returned, for \<^verbatim>\<open>POST /api/generate\<close>; \<open>None\<close> when it
  throws, which the handler's \<^verbatim>\<open>catch\<close> turns into the response 500.
\<close>

definition generate_relay :: "platform \<Rightarrow> backend_response \<Rightarrow> response option" where
  "generate_relay pf r =
     (case JSON_parse pf (responseText r) of
        None \<Rightarrow>
          NextResponse_json
            (JObj [(''error'', JStr ''Received an invalid (non-JSON) response from the backend.''),
                   (''details'', JStr (responseText r))])
            (backendStatus r)
      | Some data \<Rightarrow>
          if \<not> ok r then
            (case dot_error data of
               TypeError \<Rightarrow> None
             | l \<Rightarrow> NextResponse_json
                     (JObj [(''error'', or_default l ''An unknown error occurred from the backend.'')])
                     (backendStatus r))
          else NextResponse_json data (backendStatus r))"

text \<open>
  The response once \<^verbatim>\<open>fetch\<close> has been called: what is thrown after that point is no
  SyntaxError, and the \<^verbatim>\<open>catch\<close> answers 500.
\<close>

definition generate_answer :: "platform \<Rightarrow> backend_response option \<Rightarrow> response" where
  "generate_answer pf fetched =
     (case fetched of
        None \<Rightarrow> internal_server_error
      | Some r \<Rightarrow> (case generate_relay pf r of None \<Rightarrow> internal_server_error | Some res \<Rightarrow> res))"

text \<open>
  The handler \<^verbatim>\<open>POST\<close> of \<^verbatim>\<open>ui/src/app/api/generate/route.ts\<close>, on the text of the request's
  body. It returns the \<^verbatim>\<open>fetch\<close> calls it made, in order, and its response.
\<close>

definition POST :: "platform \<Rightarrow> string \<Rightarrow> fetch_call list \<times> response" where
  "POST pf request_text =
     (case JSON_parse pf request_text of
        None \<Rightarrow> ([], \<lparr>status = 400, content = JObj [(''error'', JStr ''Invalid JSON in request body.'')]\<rparr>)
      | Some b \<Rightarrow>
          (case safeParse pf b of
             Inl details \<Rightarrow>
               ([], \<lparr>status = 400,
                     content = JObj ((''error'', JStr ''Invalid username.'') #
                       (case details of None \<Rightarrow> [] | Some ms \<Rightarrow> [(''details'', JArr (map JStr ms))]))\<rparr>)
           | Inr name \<Rightarrow>
               (case BACKEND_URL pf of
                  None \<Rightarrow>
                    ([], \<lparr>status = 500,
                          content = JObj [(''error'', JStr ''Server configuration error: BACKEND_URL is not set.'')]\<rparr>)
                | Some backend_url \<Rightarrow>
                    if backend_url = [] then
                      ([], \<lparr>status = 500,
                            content = JObj [(''error'', JStr ''Server configuration error: BACKEND_URL is not set.'')]\<rparr>)
                    else
                      ([generate_request backend_url name],
                       generate_answer pf (fetch pf (generate_request backend_url name))))))"

subsection \<open>\<^verbatim>\<open>GET /api/emails/[id]\<close>\<close>

text \<open>
  The call \<^verbatim>\<open>fetch(backendUrl)\<close>, with \<^verbatim>\<open>backendUrl\<close> made of
  \<^verbatim>\<open>http://127.0.0.1:3001/api/email/\<close>, the address, \<^verbatim>\<open>/\<close> and the id.
\<close>

definition email_request :: "string \<Rightarrow> string \<Rightarrow> fetch_call" where
  "email_request addr id' =
     \<lparr>fetch_url = ''http://127.0.0.1:3001/api/email/'' @ addr @ ''/'' @ id',
      fetch_method = ''GET'', fetch_headers = [], fetch_body = None\<rparr>"

text \<open>
  The inner \<^verbatim>\<open>try\<close> of \<^verbatim>\<open>GET /api/emails/[id]\<close>, entered when the back end's answer is not
  \<^verbatim>\<open>ok\<close>; \<open>None\<close> when it throws.
\<close>

definition email_error :: "platform \<Rightarrow> backend_response \<Rightarrow> response option" where
  "email_error pf r =
     (case JSON_parse pf (responseText r) of
        None \<Rightarrow> None
      | Some errorJson \<Rightarrow>
          (case dot_error errorJson of
             TypeError \<Rightarrow> None
           | l \<Rightarrow> NextResponse_json (JObj [(''error'', or_default l ''Failed to fetch email.'')])
                   (backendStatus r)))"

text \<open>
  The handler after \<^verbatim>\<open>fetch\<close> has returned, for \<^verbatim>\<open>GET /api/emails/[id]\<close>; \<open>None\<close> when it
  throws. The inner \<^verbatim>\<open>catch\<close> answers with the text of the back end's answer.
\<close>

definition email_relay :: "platform \<Rightarrow> backend_response \<Rightarrow> response option" where
  "email_relay pf r =
     (if \<not> ok r then
        (case email_error pf r of
           Some res \<Rightarrow> Some res
         | None \<Rightarrow> NextResponse_json (JObj [(''error'', JStr (responseText r))]) (backendStatus r))
      else
        (case JSON_parse pf (responseText r) of
           None \<Rightarrow> None
         | Some email \<Rightarrow> Some \<lparr>status = 200, content = email\<rparr>))"

text \<open>The outer \<^verbatim>\<open>catch\<close> of \<^verbatim>\<open>GET /api/emails/[id]\<close> answers 500.\<close>

definition email_answer :: "platform \<Rightarrow> backend_response option \<Rightarrow> response" where
  "email_answer pf fetched =
     (case fetched of
        None \<Rightarrow> \<lparr>status = 500, content = JObj [(''error'', JStr ''Internal server error.'')]\<rparr>
      | Some r \<Rightarrow>
          (case email_relay pf r of
             None \<Rightarrow> \<lparr>status = 500, content = JObj [(''error'', JStr ''Internal server error.'')]\<rparr>
           | Some res \<Rightarrow> res))"

text \<open>
  The handler \<^verbatim>\<open>GET\<close> of \<^verbatim>\<open>ui/src/app/api/emails/[id]/route.ts\<close>, on \<^verbatim>\<open>context.params.id\<close>
  and \<^verbatim>\<open>searchParams.get("address")\<close> (\<open>None\<close> for \<^verbatim>\<open>null\<close>).
\<close>

definition GET :: "platform \<Rightarrow> string \<Rightarrow> string option \<Rightarrow> fetch_call list \<times> response" where
  "GET pf id' addr =
     (case addr of
        None \<Rightarrow>
          ([], \<lparr>status = 400, content = JObj [(''error'', JStr ''Email ID and temporary address are required.'')]\<rparr>)
      | Some a \<Rightarrow>
          if id' = [] \<or> a = [] then
            ([], \<lparr>status = 400, content = JObj [(''error'', JStr ''Email ID and temporary address are required.'')]\<rparr>)
          else
            ([email_request a id'], email_answer pf (fetch pf (email_request a id'))))"

subsection \<open>The back end behind \<^verbatim>\<open>GET /api/emails/[id]\<close>\<close>

text \<open>Modelled from the spec: the query API's \<^verbatim>\<open>GET /api/email/{address}/{id}\<close>, served by the
  back-end crate that is not among the sources: the record on success, and "404 not found /
  cross-mailbox" otherwise. How a result is written as the text of the answer is not
  specified, so it is the parameter \<open>encode\<close>.
\<close>

definition api_get_message ::
    "(store_error + received_email \<Rightarrow> string) \<Rightarrow> timestamp \<Rightarrow> string \<Rightarrow> uuid \<Rightarrow> db \<Rightarrow> backend_response" where
  "api_get_message encode now a message_id s =
     (case get_message now a message_id s of
        Inl e \<Rightarrow> \<lparr>backendStatus = 404, responseText = encode (Inl e)\<rparr>
      | Inr r \<Rightarrow> \<lparr>backendStatus = 200, responseText = encode (Inr r)\<rparr>)"

subsection \<open>The message view\<close>

text \<open>The interface \<^verbatim>\<open>EmailDetail\<close> of \<^verbatim>\<open>ui/src/components/ui/email-view.tsx\<close>.\<close>

record EmailDetail =
  email_id :: string
  email_from_address :: string
  email_subject :: string
  email_body_plain :: "string option"
  email_body_html :: "string option"
  email_received_at :: string

text \<open>
  The elements \<^verbatim>\<open>renderBody\<close> returns: a \<^verbatim>\<open>div\<close> whose inner HTML is set from a string, and a
  \<^verbatim>\<open>p\<close> with a text child; each with its \<^verbatim>\<open>className\<close>.
\<close>

datatype element = Div_innerHTML string string | P_children string string

text \<open>
  \<^verbatim>\<open>if (s)\<close> on a \<^verbatim>\<open>string | null\<close>: \<^verbatim>\<open>null\<close> and the empty string are falsy. The
  result is the string the branch then uses.
\<close>

fun truthy_string :: "string option \<Rightarrow> string option" where
  "truthy_string None = None"
| "truthy_string (Some s) = (if s = [] then None else Some s)"

definition renderBody :: "EmailDetail \<Rightarrow> element" where
  "renderBody email =
     (case truthy_string (email_body_html email) of
        Some h \<Rightarrow> Div_innerHTML ''prose prose-invert prose-sm md:prose-base max-w-none'' h
      | None \<Rightarrow>
          (case truthy_string (email_body_plain email) of
             Some p \<Rightarrow> P_children ''whitespace-pre-wrap'' p
           | None \<Rightarrow> P_children ''text-zinc-500 italic'' ''This email has no content.''))"


section \<open>Example values\<close>

text \<open>Concrete inputs on which the theorems below are run.\<close>

definition example_parse :: "string \<Rightarrow> json option" where
  \<open>example_parse t =
     (if t = ''{}'' then Some (JObj [])
      else if t = ''{"username":"ab"}'' then Some (JObj [(''username'', JStr ''ab'')])
      else if t = ''{"username":null}'' then Some (JObj [(''username'', JNull)])
      else if t = ''{"error":"Email not found"}'' then Some (JObj [(''error'', JStr ''Email not found'')])
      else None)\<close>

definition example_platform :: "string option \<Rightarrow> (fetch_call \<Rightarrow> backend_response option) \<Rightarrow> platform" where
  "example_platform u f =
     \<lparr>JSON_parse = example_parse, invalid_type_message = (\<lambda>v. ''Expected string''),
      BACKEND_URL = u, fetch = f\<rparr>"

definition example_email :: "string option \<Rightarrow> string option \<Rightarrow> EmailDetail" where
  "example_email plain html =
     \<lparr>email_id = ''6f1c2a9e-0b7d-4c55-9e0a-3f2b1c4d5e6f'', email_from_address = ''a@b.com'',
      email_subject = ''Test'', email_body_plain = plain, email_body_html = html,
      email_received_at = ''2025-10-02T21:08:47Z''\<rparr>"


text \<open>The server's draws for the \<open>k\<close>-th statement of an example history.\<close>

definition example_draw :: "nat \<Rightarrow> draw" where
  "example_draw k = \<lparr>gen_random_uuid = of_nat k, NOW = 1759439327000000 + int k\<rparr>"

text \<open>A day, in microseconds.\<close>

definition example_ttl :: int where
  "example_ttl = 86400000000"

definition example_address :: "nat \<Rightarrow> string \<Rightarrow> temporary_email_values" where
  "example_address k a =
     \<lparr>id_temporary_in = Default, address_in = Val a, username_in = Null,
      created_at_in = Default, expires_at_in = Val (1759525727000000 + int k),
      is_active_in = Default\<rparr>"

definition example_message :: "uuid \<Rightarrow> int col \<Rightarrow> received_email_values" where
  "example_message owner sz =
     \<lparr>id_received_in = Default, temp_email_id_in = Val owner, from_address_in = Val ''a@b.com'',
      subject_in = Val ''Test'', body_plain_in = Val ''hello'', body_html_in = Null,
      headers_in = Null, received_at_in = Default, size_bytes_in = sz\<rparr>"

text \<open>Two addresses; the first receives a message of five bytes and one of no recorded size.\<close>

definition example_history :: "statement list" where
  "example_history =
     [Insert_temporary_emails (example_draw 1) (example_address 1 ''foo123@example.com''),
      Insert_temporary_emails (example_draw 2) (example_address 2 ''bar_456@example.com''),
      Insert_received_emails (example_draw 3) (example_message 1 (Val 5)),
      Insert_received_emails (example_draw 4) (example_message 1 Null)]"

text \<open>The same, through the operations of the store.\<close>

definition example_ops :: "store_op list" where
  "example_ops =
     [Create (example_draw 1) example_ttl None [''foo123@example.com''],
      Create (example_draw 2) example_ttl None [''foo123@example.com'', ''bar_456@example.com''],
      Insert_message (example_draw 3) (example_message 1 (Val 5)),
      Insert_message (example_draw 4) (example_message 1 Null)]"

definition example_temporary_email :: "nat \<Rightarrow> string \<Rightarrow> bool option \<Rightarrow> temporary_email" where
  "example_temporary_email k a flag =
     \<lparr>id_temporary = of_nat k, address = a, username = None,
      created_at = 1759439327000000 + int k, expires_at = 1759525727000000 + int k,
      is_active = flag\<rparr>"

definition example_received_email :: "nat \<Rightarrow> uuid \<Rightarrow> int option \<Rightarrow> received_email" where
  "example_received_email k owner sz =
     \<lparr>id_received = of_nat k, temp_email_id = owner, from_address = ''a@b.com'',
      subject = Some ''Test'', body_plain = Some ''hello'', body_html = None, headers = None,
      received_at = 1759439327000000 + int k, size_bytes = sz\<rparr>"

definition example_store :: db where
  "example_store =
     \<lparr>temporary_emails =
        [example_temporary_email 1 ''foo123@example.com'' (Some True),
         example_temporary_email 2 ''bar_456@example.com'' (Some True)],
      received_emails =
        [example_received_email 3 1 (Some 5), example_received_email 4 1 None]\<rparr>"

text \<open>The example store once the first address is deactivated.\<close>

definition example_store_deactivated :: db where
  "example_store_deactivated =
     \<lparr>temporary_emails =
        [example_temporary_email 1 ''foo123@example.com'' (Some False),
         example_temporary_email 2 ''bar_456@example.com'' (Some True)],
      received_emails = []\<rparr>"

text \<open>Operations on the example store once its first address is deactivated.\<close>

definition example_later :: "store_op list" where
  "example_later =
     [Create (example_draw 6) example_ttl None [''foo123@example.com'', ''baz-789@example.com''],
      Insert_message (example_draw 7) (example_message 1 (Val 5)),
      Sweep_expired 1759525727000003 10]"

definition example_store_later :: db where
  "example_store_later =
     \<lparr>temporary_emails =
        [example_temporary_email 1 ''foo123@example.com'' (Some False),
         example_temporary_email 2 ''bar_456@example.com'' (Some False),
         example_temporary_email 6 ''baz-789@example.com'' (Some True)],
      received_emails = []\<rparr>"

text \<open>A back end that writes every failure as the same JSON text.\<close>

definition example_encode :: "store_error + received_email \<Rightarrow> string" where
  \<open>example_encode x = (case x of Inl e \<Rightarrow> ''{"error":"Email not found"}'' | Inr r \<Rightarrow> ''{}'')\<close>

text \<open>A \<^verbatim>\<open>fetch\<close> that reaches a back end serving one URL with one answer.\<close>

definition example_fetch :: "string \<Rightarrow> backend_response \<Rightarrow> fetch_call \<Rightarrow> backend_response option" where
  "example_fetch u answer q = (if fetch_url q = u then Some answer else None)"

section \<open>The matcher against the language of a pattern\<close>

lemma match_lang: "match r s \<longleftrightarrow> s \<in> lang r"
proof (induction r s rule: match.induct)
  case (5 C r x xs)
  show ?case
  proof
    assume m: "match (Many1 C # r) (x # xs)"
    then have cx: "C x" by simp
    from m have "match r xs \<or> match (Many1 C # r) xs" by simp
    then show "x # xs \<in> lang (Many1 C # r)"
    proof
      assume "match r xs"
      with 5 cx have "[x] \<noteq> [] \<and> (\<forall>y \<in> set [x]. C y) \<and> xs \<in> lang r" by simp
      then have "[x] @ xs \<in> lang (Many1 C # r)" unfolding lang.simps by blast
      then show ?thesis by simp
    next
      assume "match (Many1 C # r) xs"
      with 5 have "xs \<in> lang (Many1 C # r)" by simp
      then obtain u w where uw: "xs = u @ w" "u \<noteq> []" "\<forall>y \<in> set u. C y" "w \<in> lang r" by auto
      with cx have "(x # u) \<noteq> [] \<and> (\<forall>y \<in> set (x # u). C y) \<and> w \<in> lang r" by simp
      then have "(x # u) @ w \<in> lang (Many1 C # r)" unfolding lang.simps by blast
      with uw show ?thesis by simp
    qed
  next
    assume "x # xs \<in> lang (Many1 C # r)"
    then obtain u w where uw: "x # xs = u @ w" "u \<noteq> []" "\<forall>y \<in> set u. C y" "w \<in> lang r" by auto
    then obtain u' where u: "u = x # u'" by (cases u) auto
    with uw have cx: "C x" and xs: "xs = u' @ w" by auto
    show "match (Many1 C # r) (x # xs)"
    proof (cases "u' = []")
      case True
      with xs uw 5 cx show ?thesis by simp
    next
      case False
      with uw u have "u' @ w \<in> lang (Many1 C # r)" by auto
      with xs 5 cx show ?thesis by simp
    qed
  qed
qed auto

lemma match_Many1: "match [Many1 C] s \<longleftrightarrow> s \<noteq> [] \<and> (\<forall>c \<in> set s. C c)"
  by (auto simp: match_lang)


section \<open>The tables keep their constraints\<close>

lemma and_then_Inr: "and_then x f = Inr y \<longleftrightarrow> (\<exists>a. x = Inr a \<and> f a = Inr y)"
  by (cases x) auto

lemma not_null_Inr: "not_null c x = Inr y \<longleftrightarrow> x = Some y"
  by (cases x) auto

lemma int4_Inr: "int4 x = Inr y \<longleftrightarrow> y = x \<and> (\<forall>n. x = Some n \<longrightarrow> - 2147483648 \<le> n \<and> n \<le> 2147483647)"
  by (cases x) auto

lemma received_emails_row_Inr:
  assumes "received_emails_row d v = Inr row"
  shows "size_bytes row = supplied None (size_bytes_in v)"
    and "Some (temp_email_id row) = supplied None (temp_email_id_in v)"
    and "Some (id_received row) = supplied (Some (gen_random_uuid d)) (id_received_in v)"
    and "body_plain row = supplied None (body_plain_in v)"
    and "body_html row = supplied None (body_html_in v)"
  using assms
  by (auto simp: received_emails_row_def and_then_Inr not_null_Inr int4_Inr)

lemma ex_set_image: "(\<exists>x \<in> set xs. f x = y) \<longleftrightarrow> y \<in> set (map f xs)"
  by auto

lemma insert_received_emails_Inr:
  "insert_received_emails d v s = Inr s' \<longleftrightarrow>
     (\<exists>row. received_emails_row d v = Inr row
        \<and> s' = s\<lparr>received_emails := received_emails s @ [row]\<rparr>
        \<and> check_passes (reasonable_size row)
        \<and> id_received row \<notin> set (map id_received (received_emails s))
        \<and> temp_email_id row \<in> set (map id_temporary (temporary_emails s)))"
proof (cases "received_emails_row d v")
  case (Inl e)
  then show ?thesis by (simp add: insert_received_emails_def)
next
  case (Inr row)
  then show ?thesis
    unfolding insert_received_emails_def ex_set_image by simp metis
qed

lemma temporary_emails_row_Inr:
  assumes "temporary_emails_row d v = Inr row"
  shows "is_active row = supplied (Some True) (is_active_in v)"
    and "Some (id_temporary row) = supplied (Some (gen_random_uuid d)) (id_temporary_in v)"
    and "varchar 255 (supplied None (address_in v)) = Inr (Some (address row))"
    and "Some (expires_at row) = supplied None (expires_at_in v)"
    and "Some (created_at row) = supplied (Some (NOW d)) (created_at_in v)"
  using assms
  by (auto simp: temporary_emails_row_def and_then_Inr not_null_Inr)

lemma insert_temporary_emails_Inr:
  "insert_temporary_emails d v s = Inr s' \<longleftrightarrow>
     (\<exists>row. temporary_emails_row d v = Inr row
        \<and> s' = s\<lparr>temporary_emails := temporary_emails s @ [row]\<rparr>
        \<and> check_passes (address_format row)
        \<and> id_temporary row \<notin> set (map id_temporary (temporary_emails s))
        \<and> address row \<notin> set (map address (temporary_emails s)))"
proof (cases "temporary_emails_row d v")
  case (Inl e)
  then show ?thesis by (simp add: insert_temporary_emails_def)
next
  case (Inr row)
  then show ?thesis
    unfolding insert_temporary_emails_def ex_set_image by simp metis
qed

lemma constraints_empty: "constraints empty_db"
  by (simp add: constraints_def empty_db_def)

lemma constraints_insert_received:
  "constraints s \<Longrightarrow> insert_received_emails d v s = Inr s' \<Longrightarrow> constraints s'"
  unfolding insert_received_emails_Inr constraints_def by clarsimp

lemma constraints_insert_temporary:
  "constraints s \<Longrightarrow> insert_temporary_emails d v s = Inr s' \<Longrightarrow> constraints s'"
  unfolding insert_temporary_emails_Inr constraints_def by clarsimp blast

lemma constraints_delete_received: "constraints s \<Longrightarrow> constraints (delete_received_emails p s)"
  unfolding constraints_def delete_received_emails_def
  by (auto simp: distinct_map_filter list_all_iff)

lemma constraints_delete_temporary: "constraints s \<Longrightarrow> constraints (delete_temporary_emails p s)"
proof -
  assume c: "constraints s"
  have "temp_email_id r \<in> id_temporary ` {t \<in> set (temporary_emails s). \<not> p t}"
    if r: "r \<in> set (received_emails s)"
      and keep: "\<not> (\<exists>t \<in> set (temporary_emails s). p t \<and> id_temporary t = temp_email_id r)" for r
  proof -
    from c r obtain t where t: "t \<in> set (temporary_emails s)" "id_temporary t = temp_email_id r"
      unfolding constraints_def by auto
    with keep have "\<not> p t" by blast
    with t show ?thesis by force
  qed
  with c show ?thesis
    unfolding constraints_def delete_temporary_emails_def
    by (auto simp: distinct_map_filter list_all_iff)
qed

lemma update_row_keeps:
  "id_temporary (if p t then t\<lparr>is_active := b\<rparr> else t) = id_temporary t"
  "address (if p t then t\<lparr>is_active := b\<rparr> else t) = address t"
  "address_format (if p t then t\<lparr>is_active := b\<rparr> else t) = address_format t"
  by (simp_all add: address_format_def)

lemma map_keeps: "(\<And>t. f (u t) = f t) \<Longrightarrow> map (f \<circ> u) xs = map f xs"
  by (simp add: comp_def)

lemma update_is_active_tables:
  "map id_temporary (temporary_emails (update_is_active b p s)) = map id_temporary (temporary_emails s)"
  "map address (temporary_emails (update_is_active b p s)) = map address (temporary_emails s)"
  "map address_format (temporary_emails (update_is_active b p s)) = map address_format (temporary_emails s)"
  "received_emails (update_is_active b p s) = received_emails s"
  by (simp_all add: update_is_active_def map_keeps update_row_keeps)

lemma constraints_update_is_active: "constraints s \<Longrightarrow> constraints (update_is_active b p s)"
  unfolding constraints_def by (simp only: update_is_active_tables)

lemma constraints_commit: "constraints s \<Longrightarrow> constraints (commit st s)"
proof (cases st)
  case (Insert_temporary_emails d v)
  then show "constraints s \<Longrightarrow> ?thesis"
    by (cases "insert_temporary_emails d v s") (simp_all add: commit_def constraints_insert_temporary)
next
  case (Insert_received_emails d v)
  then show "constraints s \<Longrightarrow> ?thesis"
    by (cases "insert_received_emails d v s") (simp_all add: commit_def constraints_insert_received)
qed (simp_all add: commit_def constraints_delete_temporary constraints_delete_received
       constraints_update_is_active)

lemma constraints_fold: "constraints s \<Longrightarrow> constraints (fold commit history s)"
  by (induction history arbitrary: s) (simp_all add: constraints_commit)

lemma constraints_run: "constraints (run history)"
  by (simp add: run_def constraints_fold constraints_empty)


section \<open>The size ceiling\<close>

lemma check_passes_reasonable_size:
  "check_passes (reasonable_size r) \<longleftrightarrow> (\<forall>n. size_bytes r = Some n \<longrightarrow> n \<le> 10485760)"
  by (cases "size_bytes r") (simp_all add: check_passes_def reasonable_size_def)

lemma insert_received_emails_oversize:
  assumes "size_bytes_in v = Val n" and "n > 10485760"
  shows "\<exists>e. insert_received_emails d v s = Inl e"
proof (cases "insert_received_emails d v s")
  case (Inr s')
  then obtain row where row: "received_emails_row d v = Inr row" "check_passes (reasonable_size row)"
    unfolding insert_received_emails_Inr by blast
  from row(1) assms(1) have "size_bytes row = Some n"
    by (simp add: received_emails_row_Inr(1))
  with row(2) assms(2) show ?thesis by (simp add: check_passes_reasonable_size)
qed simp

text \<open>
  C1. In the store after any history of statements, no row of \<^verbatim>\<open>received_emails\<close> has a
  \<^verbatim>\<open>size_bytes\<close> above 10485760. An \<^verbatim>\<open>INSERT\<close> whose \<^verbatim>\<open>size_bytes\<close> is above 10485760 ends with
  an error on any store, and the store is left as it was.
\<close>

theorem size_bytes_ceiling:
  "(\<forall>r \<in> set (received_emails (run history)). \<forall>n. size_bytes r = Some n \<longrightarrow> n \<le> 10485760)
   \<and> (\<forall>n. size_bytes_in v = Val n \<and> n > 10485760
        \<longrightarrow> (\<exists>e. insert_received_emails d v s = Inl e)
          \<and> commit (Insert_received_emails d v) s = s)"
proof (intro conjI ballI allI impI)
  fix r n assume "r \<in> set (received_emails (run history))" and n: "size_bytes r = Some n"
  with constraints_run [of history] have "check_passes (reasonable_size r)"
    by (simp add: constraints_def list_all_iff)
  with n show "n \<le> 10485760" by (simp add: check_passes_reasonable_size)
next
  fix n assume "size_bytes_in v = Val n \<and> n > 10485760"
  then obtain e where e: "insert_received_emails d v s = Inl e"
    using insert_received_emails_oversize [of v n d s] by blast
  then show "\<exists>e. insert_received_emails d v s = Inl e" by blast
  from e show "commit (Insert_received_emails d v) s = s" by (simp add: commit_def)
qed

lemmas example_defs = example_history_def example_draw_def example_address_def example_message_def
  example_store_def example_temporary_email_def example_received_email_def example_ttl_def

lemmas statement_defs = run_def commit_def empty_db_def insert_temporary_emails_def
  insert_received_emails_def temporary_emails_row_def received_emails_row_def
  check_passes_def address_format_def reasonable_size_def address_pattern_def
  local_char_def domain_char_def alnum_def

lemma run_example_history: "run example_history = example_store"
  by (simp add: example_defs statement_defs)

text \<open>
  The theorem on the example: the stored message of five bytes, and an insert of 10485761
  bytes, which the check refuses.
\<close>

theorem size_bytes_ceiling_witness:
  "example_received_email 3 1 (Some 5) \<in> set (received_emails (run example_history))
   \<and> size_bytes (example_received_email 3 1 (Some 5)) = Some 5
   \<and> (5::int) \<le> 10485760
   \<and> size_bytes_in (example_message 1 (Val 10485761)) = Val 10485761
   \<and> (10485761::int) > 10485760
   \<and> insert_received_emails (example_draw 5) (example_message 1 (Val 10485761)) (run example_history)
       = Inl (Check_violation ''reasonable_size'')
   \<and> commit (Insert_received_emails (example_draw 5) (example_message 1 (Val 10485761))) (run example_history)
       = run example_history"
proof -
  have m: "example_received_email 3 1 (Some 5) \<in> set (received_emails (run example_history))"
    by (simp add: run_example_history example_store_def)
  have e: "insert_received_emails (example_draw 5) (example_message 1 (Val 10485761)) (run example_history)
       = Inl (Check_violation ''reasonable_size'')"
    by (simp add: run_example_history example_defs statement_defs)
  from size_bytes_ceiling [of example_history "example_message 1 (Val 10485761)" "example_draw 5" "run example_history"] m e
  show ?thesis by (simp add: example_message_def example_received_email_def)
qed

text \<open>
  C10. \<^verbatim>\<open>size_bytes\<close> may be left out of an \<^verbatim>\<open>INSERT\<close> or given as \<^verbatim>\<open>NULL\<close>. The row then holds no
  size, the condition of \<^verbatim>\<open>reasonable_size\<close> is \<^verbatim>\<open>NULL\<close>, which passes, and the insert succeeds
  exactly when the row has its mandatory columns, its id is new and its owner exists: the
  ceiling plays no part.
\<close>

theorem size_bytes_nullable:
  assumes "size_bytes_in v = Null \<or> size_bytes_in v = Default"
  shows "(\<forall>row. received_emails_row d v = Inr row
            \<longrightarrow> size_bytes row = None \<and> reasonable_size row = None
              \<and> check_passes (reasonable_size row))
       \<and> (\<forall>s'. insert_received_emails d v s = Inr s' \<longleftrightarrow>
            (\<exists>row. received_emails_row d v = Inr row
               \<and> size_bytes row = None
               \<and> id_received row \<notin> set (map id_received (received_emails s))
               \<and> temp_email_id row \<in> set (map id_temporary (temporary_emails s))
               \<and> s' = s\<lparr>received_emails := received_emails s @ [row]\<rparr>))"
proof -
  have none: "size_bytes row = None" if "received_emails_row d v = Inr row" for row
    using received_emails_row_Inr(1) [OF that] assms by auto
  then have pass: "reasonable_size row = None \<and> check_passes (reasonable_size row)"
    if "received_emails_row d v = Inr row" for row
    using that by (simp add: reasonable_size_def check_passes_def)
  show ?thesis
    unfolding insert_received_emails_Inr using none pass by blast
qed

text \<open>
  The theorem on the example: the fourth statement of the example history stores a message
  with no size.
\<close>

theorem size_bytes_nullable_witness:
  "size_bytes_in (example_message 1 Null) = Null
   \<and> received_emails_row (example_draw 4) (example_message 1 Null) = Inr (example_received_email 4 1 None)
   \<and> size_bytes (example_received_email 4 1 None) = None
   \<and> reasonable_size (example_received_email 4 1 None) = None
   \<and> insert_received_emails (example_draw 4) (example_message 1 Null)
        (run (butlast example_history))
      = Inr (run example_history)
   \<and> example_received_email 4 1 None \<in> set (received_emails (run example_history))"
proof -
  have r: "received_emails_row (example_draw 4) (example_message 1 Null) = Inr (example_received_email 4 1 None)"
    by (simp add: example_defs statement_defs)
  have b: "run (butlast example_history) = example_store\<lparr>received_emails := [example_received_email 3 1 (Some 5)]\<rparr>"
    by (simp add: example_defs statement_defs)
  have i: "insert_received_emails (example_draw 4) (example_message 1 Null) (run (butlast example_history))
      = Inr (run example_history)"
    unfolding b run_example_history by (simp add: example_defs statement_defs)
  from size_bytes_nullable [of "example_message 1 Null" "example_draw 4" "run (butlast example_history)"] r i
  show ?thesis by (simp add: example_message_def run_example_history example_store_def)
qed


section \<open>Addresses\<close>

lemma match_address_pattern:
  "match address_pattern a \<longleftrightarrow>
     (\<exists>local_part domain. a = local_part @ ''@'' @ domain
        \<and> local_part \<noteq> [] \<and> (\<forall>c \<in> set local_part. local_char c)
        \<and> domain \<noteq> [] \<and> (\<forall>c \<in> set domain. domain_char c))"
  unfolding match_lang address_pattern_def by auto

text \<open>
  C5. In the store after any history of statements, no two rows of \<^verbatim>\<open>temporary_emails\<close>
  have the same address, and every address is a local part, \<^verbatim>\<open>@\<close> and a domain, where the
  local part is not empty and holds only letters, digits, \<^verbatim>\<open>_\<close> and \<^verbatim>\<open>-\<close>, and the domain is not
  empty and holds only letters, digits, \<^verbatim>\<open>.\<close> and \<^verbatim>\<open>-\<close>.
\<close>

theorem address_unique_and_well_formed:
  "distinct (map address (temporary_emails (run history)))
   \<and> (\<forall>t \<in> set (temporary_emails (run history)).
        \<exists>local_part domain. address t = local_part @ ''@'' @ domain
          \<and> local_part \<noteq> []
          \<and> (\<forall>c \<in> set local_part. alnum c \<or> c = CHR ''_'' \<or> c = CHR ''-'')
          \<and> domain \<noteq> []
          \<and> (\<forall>c \<in> set domain. alnum c \<or> c = CHR ''.'' \<or> c = CHR ''-''))"
proof
  show "distinct (map address (temporary_emails (run history)))"
    using constraints_run [of history] by (simp add: constraints_def)
next
  show "\<forall>t \<in> set (temporary_emails (run history)).
        \<exists>local_part domain. address t = local_part @ ''@'' @ domain
          \<and> local_part \<noteq> []
          \<and> (\<forall>c \<in> set local_part. alnum c \<or> c = CHR ''_'' \<or> c = CHR ''-'')
          \<and> domain \<noteq> []
          \<and> (\<forall>c \<in> set domain. alnum c \<or> c = CHR ''.'' \<or> c = CHR ''-'')"
  proof
    fix t assume "t \<in> set (temporary_emails (run history))"
    with constraints_run [of history] have "check_passes (address_format t)"
      by (simp add: constraints_def list_all_iff)
    then have "match address_pattern (address t)"
      by (simp add: check_passes_def address_format_def)
    then show "\<exists>local_part domain. address t = local_part @ ''@'' @ domain
          \<and> local_part \<noteq> []
          \<and> (\<forall>c \<in> set local_part. alnum c \<or> c = CHR ''_'' \<or> c = CHR ''-'')
          \<and> domain \<noteq> []
          \<and> (\<forall>c \<in> set domain. alnum c \<or> c = CHR ''.'' \<or> c = CHR ''-'')"
      unfolding match_address_pattern local_char_def domain_char_def .
  qed
qed

text \<open>
  The theorem on the example: the two stored addresses differ, and the first one splits as
  the theorem says.
\<close>

theorem address_unique_and_well_formed_witness:
  "distinct (map address (temporary_emails (run example_history)))
   \<and> map address (temporary_emails (run example_history)) = [''foo123@example.com'', ''bar_456@example.com'']
   \<and> example_temporary_email 1 ''foo123@example.com'' (Some True) \<in> set (temporary_emails (run example_history))
   \<and> (\<exists>local_part domain.
        address (example_temporary_email 1 ''foo123@example.com'' (Some True)) = local_part @ ''@'' @ domain
          \<and> local_part \<noteq> []
          \<and> (\<forall>c \<in> set local_part. alnum c \<or> c = CHR ''_'' \<or> c = CHR ''-'')
          \<and> domain \<noteq> []
          \<and> (\<forall>c \<in> set domain. alnum c \<or> c = CHR ''.'' \<or> c = CHR ''-''))"
proof -
  have m: "example_temporary_email 1 ''foo123@example.com'' (Some True) \<in> set (temporary_emails (run example_history))"
    by (simp add: run_example_history example_store_def)
  have a: "map address (temporary_emails (run example_history)) = [''foo123@example.com'', ''bar_456@example.com'']"
    by (simp add: run_example_history example_store_def example_temporary_email_def)
  from address_unique_and_well_formed [of example_history] m a
  show ?thesis by blast
qed


section \<open>Ownership\<close>

lemma delete_one_received:
  assumes "t \<in> set (temporary_emails s)"
  shows "received_emails (delete_temporary_emails (\<lambda>x. id_temporary x = id_temporary t) s)
       = filter (\<lambda>r. temp_email_id r \<noteq> id_temporary t) (received_emails s)"
proof -
  have "filter (\<lambda>r. \<not> (\<exists>x \<in> set (temporary_emails s).
                  id_temporary x = id_temporary t \<and> id_temporary x = temp_email_id r)) (received_emails s)
      = filter (\<lambda>r. temp_email_id r \<noteq> id_temporary t) (received_emails s)"
    by (rule filter_cong [OF refl]) (use assms in auto)
  then show ?thesis unfolding delete_temporary_emails_def by simp
qed

lemma same_id_same_row:
  assumes "distinct (map id_temporary xs)" "t \<in> set xs" "x \<in> set xs" "id_temporary x = id_temporary t"
  shows "x = t"
  using assms by (meson distinct_map inj_onD)

lemma delete_one_temporary:
  assumes "distinct (map id_temporary (temporary_emails s))" "t \<in> set (temporary_emails s)"
  shows "temporary_emails (delete_temporary_emails (\<lambda>x. id_temporary x = id_temporary t) s)
       = filter (\<lambda>x. x \<noteq> t) (temporary_emails s)"
proof -
  have "filter (\<lambda>x. id_temporary x \<noteq> id_temporary t) (temporary_emails s)
      = filter (\<lambda>x. x \<noteq> t) (temporary_emails s)"
    by (rule filter_cong [OF refl]) (use assms same_id_same_row in blast)
  then show ?thesis by (simp add: delete_temporary_emails_def)
qed

lemma insert_received_emails_owner:
  assumes "insert_received_emails d v s = Inr s'"
  shows "\<exists>owner. temp_email_id_in v = Val owner \<and> owner \<in> set (map id_temporary (temporary_emails s))"
proof -
  from assms obtain row where row: "received_emails_row d v = Inr row"
      "temp_email_id row \<in> set (map id_temporary (temporary_emails s))"
    unfolding insert_received_emails_Inr by blast
  from received_emails_row_Inr(2) [OF row(1)] have "temp_email_id_in v = Val (temp_email_id row)"
    by (cases "temp_email_id_in v") simp_all
  with row(2) show ?thesis by blast
qed

text \<open>
  C4. In the store after any history of statements, every row of \<^verbatim>\<open>received_emails\<close>
  references exactly one row of \<^verbatim>\<open>temporary_emails\<close>; an \<^verbatim>\<open>INSERT\<close> succeeds only when it names an
  owner and that owner is a stored row. Deleting a stored address row removes that row and
  no other, and removes exactly the messages that reference it: none is left.
\<close>

theorem ownership_and_cascade:
  "(\<forall>r \<in> set (received_emails (run history)).
      \<exists>!t. t \<in> set (temporary_emails (run history)) \<and> id_temporary t = temp_email_id r)
   \<and> (\<forall>s'. insert_received_emails d v s = Inr s'
        \<longrightarrow> (\<exists>owner. temp_email_id_in v = Val owner
              \<and> owner \<in> set (map id_temporary (temporary_emails s))))
   \<and> (\<forall>t \<in> set (temporary_emails (run history)).
        t \<notin> set (temporary_emails (delete_temporary_emails (\<lambda>x. id_temporary x = id_temporary t) (run history)))
        \<and> temporary_emails (delete_temporary_emails (\<lambda>x. id_temporary x = id_temporary t) (run history))
            = filter (\<lambda>x. x \<noteq> t) (temporary_emails (run history))
        \<and> received_emails (delete_temporary_emails (\<lambda>x. id_temporary x = id_temporary t) (run history))
            = filter (\<lambda>r. temp_email_id r \<noteq> id_temporary t) (received_emails (run history))
        \<and> (\<forall>r \<in> set (received_emails
              (delete_temporary_emails (\<lambda>x. id_temporary x = id_temporary t) (run history))).
             temp_email_id r \<noteq> id_temporary t))"
proof (intro conjI ballI allI impI)
  fix r assume r: "r \<in> set (received_emails (run history))"
  have c: "constraints (run history)" by (rule constraints_run)
  from c r obtain t where t: "t \<in> set (temporary_emails (run history))" "id_temporary t = temp_email_id r"
    unfolding constraints_def by auto
  moreover have "x = t" if "x \<in> set (temporary_emails (run history))" "id_temporary x = temp_email_id r" for x
    using same_id_same_row [of "temporary_emails (run history)" t x] c t that
    by (simp add: constraints_def)
  ultimately show "\<exists>!t. t \<in> set (temporary_emails (run history)) \<and> id_temporary t = temp_email_id r"
    by blast
next
  fix s' assume "insert_received_emails d v s = Inr s'"
  then show "\<exists>owner. temp_email_id_in v = Val owner \<and> owner \<in> set (map id_temporary (temporary_emails s))"
    by (rule insert_received_emails_owner)
next
  fix t assume t: "t \<in> set (temporary_emails (run history))"
  have d: "distinct (map id_temporary (temporary_emails (run history)))"
    using constraints_run [of history] by (simp add: constraints_def)
  show "t \<notin> set (temporary_emails (delete_temporary_emails (\<lambda>x. id_temporary x = id_temporary t) (run history)))"
    by (simp add: delete_temporary_emails_def)
  show "temporary_emails (delete_temporary_emails (\<lambda>x. id_temporary x = id_temporary t) (run history))
            = filter (\<lambda>x. x \<noteq> t) (temporary_emails (run history))"
    using d t by (rule delete_one_temporary)
  show rs: "received_emails (delete_temporary_emails (\<lambda>x. id_temporary x = id_temporary t) (run history))
            = filter (\<lambda>r. temp_email_id r \<noteq> id_temporary t) (received_emails (run history))"
    using t by (rule delete_one_received)
  fix r assume "r \<in> set (received_emails
              (delete_temporary_emails (\<lambda>x. id_temporary x = id_temporary t) (run history)))"
  then show "temp_email_id r \<noteq> id_temporary t" unfolding rs by simp
qed

text \<open>
  The theorem on the example: the first message and its owner; the insert that stored it;
  and the store after the owner is deleted, in which the other address is left and no
  message.
\<close>

theorem ownership_and_cascade_witness:
  "example_received_email 3 1 (Some 5) \<in> set (received_emails (run example_history))
   \<and> example_temporary_email 1 ''foo123@example.com'' (Some True) \<in> set (temporary_emails (run example_history))
   \<and> id_temporary (example_temporary_email 1 ''foo123@example.com'' (Some True))
       = temp_email_id (example_received_email 3 1 (Some 5))
   \<and> insert_received_emails (example_draw 3) (example_message 1 (Val 5)) (run (take 2 example_history))
       = Inr (run (take 3 example_history))
   \<and> temp_email_id_in (example_message 1 (Val 5)) = Val 1
   \<and> delete_temporary_emails (\<lambda>x. id_temporary x = 1) (run example_history)
       = \<lparr>temporary_emails = [example_temporary_email 2 ''bar_456@example.com'' (Some True)],
          received_emails = []\<rparr>"
proof -
  have r: "example_received_email 3 1 (Some 5) \<in> set (received_emails (run example_history))"
    and t: "example_temporary_email 1 ''foo123@example.com'' (Some True) \<in> set (temporary_emails (run example_history))"
    by (simp_all add: run_example_history example_store_def)
  have i: "insert_received_emails (example_draw 3) (example_message 1 (Val 5)) (run (take 2 example_history))
       = Inr (run (take 3 example_history))"
    by (simp add: example_defs statement_defs)
  have del: "delete_temporary_emails (\<lambda>x. id_temporary x = 1) (run example_history)
       = \<lparr>temporary_emails = [example_temporary_email 2 ''bar_456@example.com'' (Some True)],
          received_emails = []\<rparr>"
    by (simp add: run_example_history example_store_def delete_temporary_emails_def
          example_temporary_email_def example_received_email_def)
  from ownership_and_cascade [of example_history "example_draw 3" "example_message 1 (Val 5)"
      "run (take 2 example_history)"] r t i del
  show ?thesis by (simp add: example_message_def example_temporary_email_def example_received_email_def)
qed


section \<open>What the tables leave to the operations\<close>

text \<open>
  No constraint of the two tables reads \<^verbatim>\<open>is_active\<close>, and the only cascade is on \<^verbatim>\<open>DELETE\<close>. So,
  for the statements alone: setting \<^verbatim>\<open>is_active\<close> leaves every message where it is; whether an
  insert of a message succeeds does not depend on \<^verbatim>\<open>is_active\<close>, and on the example it
  succeeds for an owner that is not active; and \<^verbatim>\<open>is_active\<close> can be set to true again. That a
  message is refused for an owner that is not active, that the messages go with a
  deactivation, and that an address is not reactivated, is the work of the operations of
  the store.
\<close>

lemma update_is_active_keeps_messages:
  "received_emails (update_is_active b p s) = received_emails s"
  by (simp add: update_is_active_def)

lemma update_is_active_received:
  "update_is_active b p (s\<lparr>received_emails := xs\<rparr>) = (update_is_active b p s)\<lparr>received_emails := xs\<rparr>"
  by (simp add: update_is_active_def)

lemma insert_received_emails_reads_no_is_active:
  "insert_received_emails d v (update_is_active b p s) = Inr s'
     \<longleftrightarrow> (\<exists>s0. insert_received_emails d v s = Inr s0 \<and> s' = update_is_active b p s0)"
  unfolding insert_received_emails_Inr update_is_active_tables
  by (auto simp: update_is_active_received)

lemma inactive_owner_example:
  "insert_received_emails (example_draw 5) (example_message 1 (Val 5)) example_store_deactivated
     = Inr (example_store_deactivated\<lparr>received_emails := [example_received_email 5 1 (Some 5)]\<rparr>)"
  by (simp add: example_defs statement_defs example_store_deactivated_def)

lemma reactivation_example:
  "update_is_active (Some True) (\<lambda>t. address t = ''foo123@example.com'') example_store_deactivated
     = example_store\<lparr>received_emails := []\<rparr>"
  by (simp add: update_is_active_def example_store_def example_store_deactivated_def
        example_temporary_email_def)

section \<open>The operations of the store\<close>

lemma create_Inr:
  "create d ttl h cs s = Inr s' \<Longrightarrow> \<exists>a \<in> set cs. insert_address d ttl h a s = Inr s'"
proof (induction cs)
  case Nil
  then show ?case by simp
next
  case (Cons a cs)
  show ?case
  proof (cases "insert_address d ttl h a s")
    case (Inr s'')
    with Cons.prems show ?thesis by simp
  next
    case (Inl e)
    with Cons.prems have "create d ttl h cs s = Inr s'"
      by (cases e) simp_all
    with Cons.IH show ?thesis by simp
  qed
qed

lemma insert_address_Inr:
  assumes "insert_address d ttl h a s = Inr s'"
  shows "\<exists>row. s' = s\<lparr>temporary_emails := temporary_emails s @ [row]\<rparr>
           \<and> is_active row = Some True
           \<and> id_temporary row = gen_random_uuid d
           \<and> created_at row = NOW d
           \<and> expires_at row = NOW d + ttl
           \<and> id_temporary row \<notin> set (map id_temporary (temporary_emails s))"
proof -
  let ?v = "\<lparr>id_temporary_in = Default, address_in = Val a,
        username_in = (case h of None \<Rightarrow> Null | Some h \<Rightarrow> Val h),
        created_at_in = Default, expires_at_in = Val (NOW d + ttl), is_active_in = Default\<rparr>"
  from assms obtain row where row: "temporary_emails_row d ?v = Inr row"
      "s' = s\<lparr>temporary_emails := temporary_emails s @ [row]\<rparr>"
      "id_temporary row \<notin> set (map id_temporary (temporary_emails s))"
    unfolding insert_address_def insert_temporary_emails_Inr by blast
  from temporary_emails_row_Inr [OF row(1)]
  have "is_active row = Some True" "id_temporary row = gen_random_uuid d"
    "created_at row = NOW d" "expires_at row = NOW d + ttl"
    by simp_all
  with row show ?thesis by blast
qed

lemma constraints_create: "constraints s \<Longrightarrow> create d ttl h cs s = Inr s' \<Longrightarrow> constraints s'"
  by (auto dest!: create_Inr simp: insert_address_def intro: constraints_insert_temporary)

lemma insert_message_Inr:
  assumes "insert_message d v s = Inr s'"
  shows "insert_received_emails d v s = Inr s'"
    and "\<exists>t \<in> set (temporary_emails s). temp_email_id_in v = Val (id_temporary t) \<and> active t"
proof -
  from assms obtain owner where o: "temp_email_id_in v = Val owner"
    by (cases "temp_email_id_in v") (simp_all add: insert_message_def)
  with assms have a: "\<exists>t \<in> set (temporary_emails s). id_temporary t = owner \<and> active t"
    by (simp add: insert_message_def split: if_splits)
  with o show "\<exists>t \<in> set (temporary_emails s). temp_email_id_in v = Val (id_temporary t) \<and> active t"
    by auto
  from assms o a show "insert_received_emails d v s = Inr s'"
    by (cases "insert_received_emails d v s")
       (simp_all add: insert_message_def split: sql_error.splits)
qed

lemma constraints_deactivate: "constraints s \<Longrightarrow> constraints (deactivate a s)"
  by (simp add: deactivate_def constraints_delete_received constraints_update_is_active)

lemma constraints_fold_deactivate:
  "constraints s \<Longrightarrow> constraints (fold (\<lambda>t. deactivate (address t)) ts s)"
  by (induction ts arbitrary: s) (simp_all add: constraints_deactivate)

lemma constraints_apply_op: "constraints s \<Longrightarrow> constraints (apply_op op s)"
proof (cases op)
  case (Create d ttl h cs)
  then show "constraints s \<Longrightarrow> ?thesis"
    by (cases "create d ttl h cs s") (simp_all add: constraints_create)
next
  case (Insert_message d v)
  then show "constraints s \<Longrightarrow> ?thesis"
    by (cases "insert_message d v s")
       (auto dest: insert_message_Inr(1) intro: constraints_insert_received)
next
  case (Deactivate a)
  then show "constraints s \<Longrightarrow> ?thesis" by (simp add: constraints_deactivate)
next
  case (Delete_message a m)
  then show "constraints s \<Longrightarrow> ?thesis"
    by (auto simp: delete_message_def constraints_delete_received split: option.splits)
next
  case (Delete_all a)
  then show "constraints s \<Longrightarrow> ?thesis"
    by (auto simp: delete_all_def constraints_delete_received split: option.splits)
next
  case (Sweep_expired now batch)
  then show "constraints s \<Longrightarrow> ?thesis"
    by (simp add: sweep_expired_def Let_def constraints_fold_deactivate)
qed

lemma constraints_fold_apply_op: "constraints s \<Longrightarrow> constraints (fold apply_op ops s)"
  by (induction ops arbitrary: s) (simp_all add: constraints_apply_op)

lemma constraints_after: "constraints (after ops)"
  by (simp add: after_def constraints_fold_apply_op constraints_empty)

lemma owners_active_empty: "owners_active empty_db"
  by (simp add: owners_active_def empty_db_def)

lemma owners_active_create:
  assumes "owners_active s" "create d ttl h cs s = Inr s'"
  shows "owners_active s'"
proof -
  from create_Inr [OF assms(2)] obtain a where "insert_address d ttl h a s = Inr s'" by blast
  from insert_address_Inr [OF this] obtain row
    where "s' = s\<lparr>temporary_emails := temporary_emails s @ [row]\<rparr>" "is_active row = Some True"
    by blast
  with assms(1) show ?thesis by (auto simp: owners_active_def active_def)
qed

lemma owners_active_insert_message:
  assumes "constraints s" "owners_active s" "insert_message d v s = Inr s'"
  shows "owners_active s'"
proof -
  from insert_message_Inr [OF assms(3)] obtain t
    where ins: "insert_received_emails d v s = Inr s'"
      and t: "t \<in> set (temporary_emails s)" "temp_email_id_in v = Val (id_temporary t)" "active t"
    by blast
  from ins obtain row where row: "received_emails_row d v = Inr row"
      "s' = s\<lparr>received_emails := received_emails s @ [row]\<rparr>"
    unfolding insert_received_emails_Inr by blast
  from received_emails_row_Inr(2) [OF row(1)] t(2) have owner: "temp_email_id row = id_temporary t"
    by simp
  have "active x" if "x \<in> set (temporary_emails s)" "id_temporary x = temp_email_id row" for x
  proof -
    from assms(1) have "distinct (map id_temporary (temporary_emails s))"
      by (simp add: constraints_def)
    from same_id_same_row [OF this t(1) that(1)] that(2) owner have "x = t" by simp
    with t(3) show ?thesis by simp
  qed
  with assms(2) row(2) show ?thesis by (auto simp: owners_active_def)
qed

lemma deactivate_tables:
  "temporary_emails (deactivate a s)
     = map (\<lambda>t. if address t = a then t\<lparr>is_active := Some False\<rparr> else t) (temporary_emails s)"
  "received_emails (deactivate a s)
     = filter (\<lambda>r. \<not> (\<exists>t \<in> set (temporary_emails s). address t = a \<and> id_temporary t = temp_email_id r))
         (received_emails s)"
  by (simp_all add: deactivate_def delete_received_emails_def update_is_active_def)

lemma owners_active_deactivate:
  assumes "owners_active s"
  shows "owners_active (deactivate a s)"
  unfolding owners_active_def
proof (intro ballI impI)
  fix r t'
  assume r: "r \<in> set (received_emails (deactivate a s))"
    and t': "t' \<in> set (temporary_emails (deactivate a s))"
    and eq: "id_temporary t' = temp_email_id r"
  from r have r0: "r \<in> set (received_emails s)"
    and keep: "\<not> (\<exists>t \<in> set (temporary_emails s). address t = a \<and> id_temporary t = temp_email_id r)"
    by (simp_all add: deactivate_tables)
  from t' obtain t where t: "t \<in> set (temporary_emails s)"
      "t' = (if address t = a then t\<lparr>is_active := Some False\<rparr> else t)"
    by (auto simp: deactivate_tables)
  with eq have "id_temporary t = temp_email_id r" by (simp split: if_splits)
  with keep t(1) have "address t \<noteq> a" by blast
  with t(2) have "t' = t" by simp
  with assms r0 t(1) eq show "active t'" by (simp add: owners_active_def)
qed

lemma owners_active_delete_received:
  "owners_active s \<Longrightarrow> owners_active (delete_received_emails p s)"
  by (auto simp: owners_active_def delete_received_emails_def)

lemma owners_active_fold_deactivate:
  "owners_active s \<Longrightarrow> owners_active (fold (\<lambda>t. deactivate (address t)) ts s)"
  by (induction ts arbitrary: s) (simp_all add: owners_active_deactivate)

lemma owners_active_apply_op:
  assumes "constraints s" "owners_active s"
  shows "owners_active (apply_op op s)"
proof (cases op)
  case (Create d ttl h cs)
  with assms show ?thesis
    by (cases "create d ttl h cs s") (auto intro: owners_active_create)
next
  case (Insert_message d v)
  with assms show ?thesis
    by (cases "insert_message d v s") (auto intro: owners_active_insert_message)
next
  case (Deactivate a)
  with assms show ?thesis by (simp add: owners_active_deactivate)
next
  case (Delete_message a m)
  with assms show ?thesis
    by (auto simp: delete_message_def owners_active_delete_received split: option.splits)
next
  case (Delete_all a)
  with assms show ?thesis
    by (auto simp: delete_all_def owners_active_delete_received split: option.splits)
next
  case (Sweep_expired now batch)
  with assms show ?thesis
    by (simp add: sweep_expired_def Let_def owners_active_fold_deactivate)
qed

lemma owners_active_fold_apply_op:
  "constraints s \<Longrightarrow> owners_active s \<Longrightarrow> owners_active (fold apply_op ops s)"
  by (induction ops arbitrary: s) (simp_all add: owners_active_apply_op constraints_apply_op)

lemma owners_active_after: "owners_active (after ops)"
  by (simp add: after_def owners_active_fold_apply_op constraints_empty owners_active_empty)


lemma insert_message_refuses:
  assumes "\<not> (\<exists>t \<in> set (temporary_emails s). temp_email_id_in v = Val (id_temporary t) \<and> active t)"
  shows "insert_message d v s = Inl UnknownOwner"
proof (cases "temp_email_id_in v")
  case (Val owner)
  with assms have "(\<exists>t \<in> set (temporary_emails s). id_temporary t = owner \<and> active t) = False"
    by auto
  then show ?thesis unfolding insert_message_def Val by (simp only: col.case if_False)
qed (simp_all add: insert_message_def)

lemma insert_received_emails_refuses:
  assumes "\<not> (\<exists>t \<in> set (temporary_emails s). temp_email_id_in v = Val (id_temporary t))"
  shows "\<exists>e. insert_received_emails d v s = Inl e"
proof (cases "insert_received_emails d v s")
  case (Inr s')
  from insert_received_emails_owner [OF this] assms show ?thesis by auto
qed simp

text \<open>
  C2. When the owner that an insert names is not a stored address row that is active at
  that moment, \<^verbatim>\<open>insert_message\<close> fails with \<^verbatim>\<open>UnknownOwner\<close> and the store is left as it was: no
  row is stored. When the owner is not a stored row at all, the insert statement on
  \<^verbatim>\<open>received_emails\<close> fails by itself.
\<close>

theorem insert_message_unknown_owner:
  assumes "\<not> (\<exists>t \<in> set (temporary_emails s).
              temp_email_id_in v = Val (id_temporary t) \<and> is_active t = Some True)"
  shows "insert_message d v s = Inl UnknownOwner
       \<and> apply_op (Insert_message d v) s = s
       \<and> (\<not> (\<exists>t \<in> set (temporary_emails s). temp_email_id_in v = Val (id_temporary t))
            \<longrightarrow> (\<exists>e. insert_received_emails d v s = Inl e))"
proof -
  from assms have "insert_message d v s = Inl UnknownOwner"
    by (intro insert_message_refuses) (simp add: active_def)
  then show ?thesis
    using insert_received_emails_refuses [of s v d] by simp
qed

lemma deactivated_row:
  assumes "t \<in> set (temporary_emails (deactivate a s))"
  obtains t0 where "t0 \<in> set (temporary_emails s)"
    "t = (if address t0 = a then t0\<lparr>is_active := Some False\<rparr> else t0)"
  using assms unfolding deactivate_tables by auto

text \<open>
  C3. \<^verbatim>\<open>deactivate(A)\<close> is one step. In the store it gives, the messages are those of the store
  before that no row with address A owns, so none references A; the rows with address A
  have \<^verbatim>\<open>is_active\<close> false; and no address is added or removed. In every store that can be
  observed, the owner of every message is active: a store in which A is not active and
  a message of A is left does not occur.
\<close>

theorem deactivate_cascades:
  "received_emails (deactivate a s)
     = filter (\<lambda>r. \<not> (\<exists>t \<in> set (temporary_emails s). address t = a \<and> id_temporary t = temp_email_id r))
         (received_emails s)
   \<and> (\<forall>r \<in> set (received_emails (deactivate a s)). \<forall>t \<in> set (temporary_emails (deactivate a s)).
         address t = a \<longrightarrow> temp_email_id r \<noteq> id_temporary t)
   \<and> (\<forall>t \<in> set (temporary_emails (deactivate a s)). address t = a \<longrightarrow> is_active t = Some False)
   \<and> map address (temporary_emails (deactivate a s)) = map address (temporary_emails s)
   \<and> owners_active (after ops)"
proof (intro conjI ballI impI)
  show "received_emails (deactivate a s)
     = filter (\<lambda>r. \<not> (\<exists>t \<in> set (temporary_emails s). address t = a \<and> id_temporary t = temp_email_id r))
         (received_emails s)"
    by (rule deactivate_tables)
  show "map address (temporary_emails (deactivate a s)) = map address (temporary_emails s)"
    by (simp add: deactivate_tables map_keeps)
  show "owners_active (after ops)" by (rule owners_active_after)
next
  fix t assume t: "t \<in> set (temporary_emails (deactivate a s))" "address t = a"
  from t(1) obtain t0 where "t = (if address t0 = a then t0\<lparr>is_active := Some False\<rparr> else t0)"
    by (rule deactivated_row)
  with t(2) show "is_active t = Some False" by (cases "address t0 = a") simp_all
next
  fix r t
  assume r: "r \<in> set (received_emails (deactivate a s))"
    and t: "t \<in> set (temporary_emails (deactivate a s))" "address t = a"
  from t(1) obtain t0 where t0: "t0 \<in> set (temporary_emails s)"
      "t = (if address t0 = a then t0\<lparr>is_active := Some False\<rparr> else t0)"
    by (rule deactivated_row)
  with t(2) have a0: "address t0 = a" "id_temporary t0 = id_temporary t"
    by (cases "address t0 = a"; simp)+
  from r have "\<not> (\<exists>x \<in> set (temporary_emails s). address x = a \<and> id_temporary x = temp_email_id r)"
    unfolding deactivate_tables by simp
  with t0(1) a0 show "temp_email_id r \<noteq> id_temporary t" by metis
qed

lemma still_there:
  assumes "t \<in> set (temporary_emails s)" "\<not> active t"
  shows "\<exists>t' \<in> set (temporary_emails (apply_op op s)). id_temporary t' = id_temporary t \<and> \<not> active t'"
proof -
  have de: "\<exists>t' \<in> set (temporary_emails (deactivate a s)). id_temporary t' = id_temporary t \<and> \<not> active t'"
    if "t \<in> set (temporary_emails s)" "\<not> active t" for a s t
  proof -
    from that have "(if address t = a then t\<lparr>is_active := Some False\<rparr> else t) \<in> set (temporary_emails (deactivate a s))"
      by (simp add: deactivate_tables)
    moreover from that have "\<not> active (if address t = a then t\<lparr>is_active := Some False\<rparr> else t)"
      by (simp add: active_def)
    ultimately show ?thesis by (metis update_row_keeps(1))
  qed
  have fo: "\<exists>t' \<in> set (temporary_emails (fold (\<lambda>t. deactivate (address t)) ts s)).
              id_temporary t' = id_temporary t \<and> \<not> active t'"
    if "t \<in> set (temporary_emails s)" "\<not> active t" for ts s t
    using that
  proof (induction ts arbitrary: s t)
    case Nil
    then show ?case by auto
  next
    case (Cons x ts)
    from de [OF Cons.prems, of "address x"] obtain t1
      where "t1 \<in> set (temporary_emails (deactivate (address x) s))"
        "id_temporary t1 = id_temporary t" "\<not> active t1" by blast
    with Cons.IH [of t1 "deactivate (address x) s"] show ?case by auto
  qed
  show ?thesis
  proof (cases op)
    case (Create d ttl h cs)
    show ?thesis
    proof (cases "create d ttl h cs s")
      case (Inl e)
      with Create assms show ?thesis by auto
    next
      case (Inr s')
      from create_Inr [OF this] obtain a where "insert_address d ttl h a s = Inr s'" by blast
      from insert_address_Inr [OF this] obtain row
        where "s' = s\<lparr>temporary_emails := temporary_emails s @ [row]\<rparr>" by blast
      with Create Inr assms show ?thesis by auto
    qed
  next
    case (Insert_message d v)
    show ?thesis
    proof (cases "insert_message d v s")
      case (Inl e)
      with Insert_message assms show ?thesis by auto
    next
      case (Inr s')
      from insert_message_Inr(1) [OF this] have "temporary_emails s' = temporary_emails s"
        unfolding insert_received_emails_Inr by auto
      with Insert_message Inr assms show ?thesis by auto
    qed
  next
    case (Deactivate a)
    with de [OF assms] show ?thesis by simp
  next
    case (Delete_message a m)
    with assms show ?thesis
      by (auto simp: delete_message_def delete_received_emails_def split: option.splits)
  next
    case (Delete_all a)
    with assms show ?thesis
      by (auto simp: delete_all_def delete_received_emails_def split: option.splits)
  next
    case (Sweep_expired now batch)
    with fo [OF assms] show ?thesis by (simp add: sweep_expired_def Let_def)
  qed
qed

lemma never_reactivated:
  assumes "constraints s" "t \<in> set (temporary_emails s)" "\<not> active t"
    "t' \<in> set (temporary_emails (fold apply_op ops s))" "id_temporary t' = id_temporary t"
  shows "\<not> active t'"
  using assms
proof (induction ops arbitrary: s t)
  case Nil
  then have "distinct (map id_temporary (temporary_emails s))" by (simp add: constraints_def)
  from same_id_same_row [OF this Nil(2)] Nil have "t' = t" by simp
  with Nil show ?case by simp
next
  case (Cons op ops)
  from still_there [OF Cons.prems(2,3), of op] obtain t1
    where t1: "t1 \<in> set (temporary_emails (apply_op op s))" "id_temporary t1 = id_temporary t" "\<not> active t1"
    by blast
  from Cons.prems(1) have "constraints (apply_op op s)" by (rule constraints_apply_op)
  from Cons.IH [OF this t1(1,3)] Cons.prems(4,5) t1(2) show ?case by simp
qed

lemmas store_defs = after_def insert_address_def insert_message_def deactivate_def active_def
  delete_received_emails_def update_is_active_def example_ops_def example_store_deactivated_def

lemma after_example_ops: "after example_ops = example_store"
  by (simp add: store_defs example_defs statement_defs)

lemma deactivate_example_store:
  "deactivate ''foo123@example.com'' example_store = example_store_deactivated"
  by (simp add: store_defs example_store_def example_temporary_email_def example_received_email_def)

lemma after_example_ops_deactivate:
  "after (example_ops @ [Deactivate ''foo123@example.com'']) = example_store_deactivated"
  using after_example_ops deactivate_example_store by (simp add: after_def)

text \<open>
  The theorem on the example: an insert for the deactivated first address and one for an
  owner that does not exist are refused, the second by the foreign key as well; an insert
  for the second address, which is active, is stored.
\<close>

theorem insert_message_unknown_owner_witness:
  "insert_message (example_draw 5) (example_message 1 (Val 5))
       (after (example_ops @ [Deactivate ''foo123@example.com''])) = Inl UnknownOwner
   \<and> apply_op (Insert_message (example_draw 5) (example_message 1 (Val 5)))
       (after (example_ops @ [Deactivate ''foo123@example.com'']))
     = after (example_ops @ [Deactivate ''foo123@example.com''])
   \<and> insert_message (example_draw 5) (example_message 9 (Val 5)) (after example_ops) = Inl UnknownOwner
   \<and> insert_received_emails (example_draw 5) (example_message 9 (Val 5)) (after example_ops)
     = Inl (Foreign_key_violation ''received_emails_temp_email_id_fkey'')
   \<and> insert_message (example_draw 5) (example_message 2 (Val 5))
       (after (example_ops @ [Deactivate ''foo123@example.com'']))
     = Inr (example_store_deactivated\<lparr>received_emails := [example_received_email 5 2 (Some 5)]\<rparr>)"
proof -
  have h1: "\<not> (\<exists>t \<in> set (temporary_emails (after (example_ops @ [Deactivate ''foo123@example.com'']))).
              temp_email_id_in (example_message 1 (Val 5)) = Val (id_temporary t) \<and> is_active t = Some True)"
    unfolding after_example_ops_deactivate
    by (simp add: example_store_deactivated_def example_message_def example_temporary_email_def)
  have h2: "\<not> (\<exists>t \<in> set (temporary_emails (after example_ops)).
              temp_email_id_in (example_message 9 (Val 5)) = Val (id_temporary t) \<and> is_active t = Some True)"
    unfolding after_example_ops
    by (simp add: example_store_def example_message_def example_temporary_email_def)
  have fk: "insert_received_emails (example_draw 5) (example_message 9 (Val 5)) (after example_ops)
     = Inl (Foreign_key_violation ''received_emails_temp_email_id_fkey'')"
    unfolding after_example_ops by (simp add: example_defs statement_defs)
  have ok: "insert_message (example_draw 5) (example_message 2 (Val 5))
       (after (example_ops @ [Deactivate ''foo123@example.com'']))
     = Inr (example_store_deactivated\<lparr>received_emails := [example_received_email 5 2 (Some 5)]\<rparr>)"
    unfolding after_example_ops_deactivate
    by (simp add: store_defs example_defs statement_defs)
  from insert_message_unknown_owner [OF h1, of "example_draw 5"]
    insert_message_unknown_owner [OF h2, of "example_draw 5"] fk ok
  show ?thesis by simp
qed

text \<open>
  The theorem on the example: the first address owns both messages; after it is
  deactivated no message is left and its row is not active.
\<close>

theorem deactivate_cascades_witness:
  "received_emails (deactivate ''foo123@example.com'' (after example_ops)) = []
   \<and> example_temporary_email 1 ''foo123@example.com'' (Some False)
       \<in> set (temporary_emails (deactivate ''foo123@example.com'' (after example_ops)))
   \<and> address (example_temporary_email 1 ''foo123@example.com'' (Some False)) = ''foo123@example.com''
   \<and> is_active (example_temporary_email 1 ''foo123@example.com'' (Some False)) = Some False
   \<and> received_emails (after example_ops)
       = [example_received_email 3 1 (Some 5), example_received_email 4 1 None]
   \<and> owners_active (after (example_ops @ [Deactivate ''foo123@example.com'']))"
proof -
  have d: "deactivate ''foo123@example.com'' (after example_ops) = example_store_deactivated"
    by (simp add: after_example_ops deactivate_example_store)
  have m: "example_temporary_email 1 ''foo123@example.com'' (Some False)
       \<in> set (temporary_emails (deactivate ''foo123@example.com'' (after example_ops)))"
    unfolding d by (simp add: example_store_deactivated_def)
  have a: "address (example_temporary_email 1 ''foo123@example.com'' (Some False)) = ''foo123@example.com''"
    by (simp add: example_temporary_email_def)
  note th = deactivate_cascades [of "''foo123@example.com''" "after example_ops"
      "example_ops @ [Deactivate ''foo123@example.com'']"]
  from th m a have f: "is_active (example_temporary_email 1 ''foo123@example.com'' (Some False)) = Some False"
    by blast
  from th have o: "owners_active (after (example_ops @ [Deactivate ''foo123@example.com'']))"
    by blast
  have e: "received_emails (deactivate ''foo123@example.com'' (after example_ops)) = []"
    unfolding d by (simp add: example_store_deactivated_def)
  have r: "received_emails (after example_ops)
       = [example_received_email 3 1 (Some 5), example_received_email 4 1 None]"
    unfolding after_example_ops by (simp add: example_store_def)
  from e m a f r o show ?thesis by (intro conjI)
qed

lemma still_there_fold:
  assumes "t \<in> set (temporary_emails s)" "\<not> active t"
  shows "\<exists>t' \<in> set (temporary_emails (fold apply_op ops s)). id_temporary t' = id_temporary t \<and> \<not> active t'"
  using assms
proof (induction ops arbitrary: s t)
  case Nil
  then show ?case by auto
next
  case (Cons op ops)
  from still_there [OF Cons.prems, of op] obtain t1
    where "t1 \<in> set (temporary_emails (apply_op op s))" "id_temporary t1 = id_temporary t" "\<not> active t1"
    by blast
  with Cons.IH [of t1 "apply_op op s"] show ?case by auto
qed

lemma after_append: "after (ops @ later) = fold apply_op later (after ops)"
  by (simp add: after_def)

text \<open>
  C6. A row inserted without a value for \<^verbatim>\<open>is_active\<close> holds true, and so does the row that
  \<^verbatim>\<open>create\<close> stores. Over every sequence of operations of the store, a row that is not
  active at some moment is still stored under its id at every later moment, and is not
  active there.
\<close>

theorem is_active_only_falls:
  "(\<forall>row. is_active_in v = Default \<and> temporary_emails_row d v = Inr row \<longrightarrow> is_active row = Some True)
   \<and> (\<forall>s'. create d ttl owner_hint candidates s = Inr s'
        \<longrightarrow> (\<exists>row. s' = s\<lparr>temporary_emails := temporary_emails s @ [row]\<rparr> \<and> is_active row = Some True))
   \<and> (\<forall>t \<in> set (temporary_emails (after ops)). is_active t \<noteq> Some True
        \<longrightarrow> (\<exists>t' \<in> set (temporary_emails (after (ops @ later))). id_temporary t' = id_temporary t)
          \<and> (\<forall>t' \<in> set (temporary_emails (after (ops @ later))).
                id_temporary t' = id_temporary t \<longrightarrow> is_active t' \<noteq> Some True))"
proof (intro conjI allI ballI impI)
  fix row assume "is_active_in v = Default \<and> temporary_emails_row d v = Inr row"
  then show "is_active row = Some True"
    using temporary_emails_row_Inr(1) [of d v row] by simp
next
  fix s' assume "create d ttl owner_hint candidates s = Inr s'"
  from create_Inr [OF this] obtain a where "insert_address d ttl owner_hint a s = Inr s'" by blast
  from insert_address_Inr [OF this]
  show "\<exists>row. s' = s\<lparr>temporary_emails := temporary_emails s @ [row]\<rparr> \<and> is_active row = Some True"
    by blast
next
  fix t assume t: "t \<in> set (temporary_emails (after ops))" "is_active t \<noteq> Some True"
  then have n: "\<not> active t" by (simp add: active_def)
  from still_there_fold [OF t(1) n, of later]
  show "\<exists>t' \<in> set (temporary_emails (after (ops @ later))). id_temporary t' = id_temporary t"
    unfolding after_append by blast
  fix t' assume "t' \<in> set (temporary_emails (after (ops @ later)))" "id_temporary t' = id_temporary t"
  with never_reactivated [OF constraints_after t(1) n, of t' later]
  show "is_active t' \<noteq> Some True"
    unfolding after_append active_def by blast
qed

lemma after_example_later:
  "after ((example_ops @ [Deactivate ''foo123@example.com'']) @ example_later) = example_store_later"
proof -
  have 1: "apply_op (Create (example_draw 6) example_ttl None [''foo123@example.com'', ''baz-789@example.com''])
             example_store_deactivated
         = example_store_deactivated\<lparr>temporary_emails := temporary_emails example_store_deactivated
             @ [example_temporary_email 6 ''baz-789@example.com'' (Some True)]\<rparr>"
    by (simp add: store_defs example_defs statement_defs)
  have 2: "apply_op (Insert_message (example_draw 7) (example_message 1 (Val 5)))
             (example_store_deactivated\<lparr>temporary_emails := temporary_emails example_store_deactivated
               @ [example_temporary_email 6 ''baz-789@example.com'' (Some True)]\<rparr>)
         = example_store_deactivated\<lparr>temporary_emails := temporary_emails example_store_deactivated
             @ [example_temporary_email 6 ''baz-789@example.com'' (Some True)]\<rparr>"
    by (simp add: store_defs example_defs)
  have 3: "apply_op (Sweep_expired 1759525727000003 10)
             (example_store_deactivated\<lparr>temporary_emails := temporary_emails example_store_deactivated
               @ [example_temporary_email 6 ''baz-789@example.com'' (Some True)]\<rparr>)
         = example_store_later"
    by (simp add: store_defs example_defs sweep_expired_def example_store_later_def)
  show ?thesis
    by (subst after_append)
       (simp only: after_example_ops_deactivate example_later_def fold.simps comp_def id_apply 1 2 3)
qed

text \<open>
  The theorem on the example: the first address is created active, is deactivated, and
  stays so through a later create, a refused insert and a sweep.
\<close>

theorem is_active_only_falls_witness:
  "is_active_in (example_address 1 ''foo123@example.com'') = Default
   \<and> temporary_emails_row (example_draw 1) (example_address 1 ''foo123@example.com'')
       = Inr (example_temporary_email 1 ''foo123@example.com'' (Some True))
   \<and> create (example_draw 1) example_ttl None [''foo123@example.com''] empty_db
       = Inr (empty_db\<lparr>temporary_emails := [example_temporary_email 1 ''foo123@example.com'' (Some True)]\<rparr>)
   \<and> example_temporary_email 1 ''foo123@example.com'' (Some False)
       \<in> set (temporary_emails (after (example_ops @ [Deactivate ''foo123@example.com''])))
   \<and> is_active (example_temporary_email 1 ''foo123@example.com'' (Some False)) \<noteq> Some True
   \<and> example_temporary_email 1 ''foo123@example.com'' (Some False)
       \<in> set (temporary_emails (after ((example_ops @ [Deactivate ''foo123@example.com'']) @ example_later)))
   \<and> map is_active (temporary_emails (after ((example_ops @ [Deactivate ''foo123@example.com'']) @ example_later)))
       = [Some False, Some False, Some True]"
proof -
  have r: "temporary_emails_row (example_draw 1) (example_address 1 ''foo123@example.com'')
       = Inr (example_temporary_email 1 ''foo123@example.com'' (Some True))"
    by (simp add: example_defs statement_defs)
  have c: "create (example_draw 1) example_ttl None [''foo123@example.com''] empty_db
       = Inr (empty_db\<lparr>temporary_emails := [example_temporary_email 1 ''foo123@example.com'' (Some True)]\<rparr>)"
    by (simp add: store_defs example_defs statement_defs)
  have m1: "example_temporary_email 1 ''foo123@example.com'' (Some False)
       \<in> set (temporary_emails (after (example_ops @ [Deactivate ''foo123@example.com''])))"
    unfolding after_example_ops_deactivate by (simp add: example_store_deactivated_def)
  have m2: "example_temporary_email 1 ''foo123@example.com'' (Some False)
       \<in> set (temporary_emails (after ((example_ops @ [Deactivate ''foo123@example.com'']) @ example_later)))"
    unfolding after_example_later by (simp add: example_store_later_def)
  have f: "is_active (example_temporary_email 1 ''foo123@example.com'' (Some False)) \<noteq> Some True"
    by (simp add: example_temporary_email_def)
  have l: "map is_active (temporary_emails (after ((example_ops @ [Deactivate ''foo123@example.com'']) @ example_later)))
       = [Some False, Some False, Some True]"
    unfolding after_example_later by (simp add: example_store_later_def example_temporary_email_def)
  note th = is_active_only_falls [of "example_address 1 ''foo123@example.com''" "example_draw 1"
      example_ttl None "[''foo123@example.com'']" empty_db
      "example_ops @ [Deactivate ''foo123@example.com'']" example_later]
  from th m1 f m2 have "is_active (example_temporary_email 1 ''foo123@example.com'' (Some False)) \<noteq> Some True"
    by blast
  with r c m1 m2 l show ?thesis by (simp add: example_address_def)
qed

section \<open>The generate route\<close>

lemma username_issues_bad:
  "length u < 3 \<or> length u > 20 \<or> (\<exists>c \<in> set u. \<not> word_char c) \<Longrightarrow> username_issues u \<noteq> []"
  by (auto simp: username_issues_def username_regex_def match_Many1)

lemma username_issues_iff:
  "username_issues u = [] \<longleftrightarrow> 3 \<le> length u \<and> length u \<le> 20 \<and> (\<forall>c \<in> set u. word_char c)"
  by (auto simp: username_issues_def username_regex_def match_Many1)

text \<open>
  C8, as the handler has it. The body of the request is a JSON object. A username that is
  a string shorter than 3 characters, longer than 20, or holding a character outside
  \<^verbatim>\<open>[a-zA-Z0-9_]\<close> gets the response 400, and no call to the back end is made. A username
  that is missing or \<^verbatim>\<open>null\<close> passes the schema; the request is then forwarded, with the
  username \<^verbatim>\<open>null\<close>, when \<^verbatim>\<open>BACKEND_URL\<close> is set and not empty, and the response is what the
  handler makes of the back end's answer. When \<^verbatim>\<open>BACKEND_URL\<close> is not set or empty, nothing
  is forwarded and the response is 500.
\<close>

theorem POST_username_validation:
  assumes "JSON_parse pf t = Some (JObj kvs)"
  shows "(\<forall>u. map_of kvs ''username'' = Some (JStr u)
             \<and> (length u < 3 \<or> length u > 20 \<or> (\<exists>c \<in> set u. \<not> word_char c))
           \<longrightarrow> fst (POST pf t) = [] \<and> status (snd (POST pf t)) = 400)
       \<and> (map_of kvs ''username'' = None \<or> map_of kvs ''username'' = Some JNull
           \<longrightarrow> safeParse pf (JObj kvs) = Inr (map_of kvs ''username'')
             \<and> (\<forall>b. BACKEND_URL pf = Some b \<and> b \<noteq> []
                 \<longrightarrow> fst (POST pf t) = [generate_request b None]
                   \<and> fetch_body (generate_request b None) = Some (JObj [(''username'', JNull)])
                   \<and> snd (POST pf t) = generate_answer pf (fetch pf (generate_request b None)))
             \<and> (BACKEND_URL pf = None \<or> BACKEND_URL pf = Some []
                 \<longrightarrow> fst (POST pf t) = [] \<and> status (snd (POST pf t)) = 500))"
  using assms username_issues_bad
  by (auto simp: POST_def generate_request_def split: option.splits)

text \<open>
  The theorem at three requests: a username of two characters; an empty object with the
  back end configured; a \<^verbatim>\<open>null\<close> username with no back end configured.
\<close>

theorem POST_username_validation_witness:
  \<open>JSON_parse (example_platform (Some ''http://backend:3001/'') (\<lambda>q. None)) ''{"username":"ab"}''
      = Some (JObj [(''username'', JStr ''ab'')])
   \<and> length ''ab'' < 3
   \<and> fst (POST (example_platform (Some ''http://backend:3001/'') (\<lambda>q. None)) ''{"username":"ab"}'') = []
   \<and> status (snd (POST (example_platform (Some ''http://backend:3001/'') (\<lambda>q. None)) ''{"username":"ab"}'')) = 400
   \<and> JSON_parse (example_platform (Some ''http://backend:3001/'') (\<lambda>q. None)) ''{}'' = Some (JObj [])
   \<and> fst (POST (example_platform (Some ''http://backend:3001/'') (\<lambda>q. None)) ''{}'')
      = [\<lparr>fetch_url = ''http://backend:3001/api/email/generate'', fetch_method = ''POST'',
          fetch_headers = [(''Content-Type'', ''application/json'')],
          fetch_body = Some (JObj [(''username'', JNull)])\<rparr>]
   \<and> JSON_parse (example_platform None (\<lambda>q. None)) ''{"username":null}'' = Some (JObj [(''username'', JNull)])
   \<and> status (snd (POST (example_platform None (\<lambda>q. None)) ''{"username":null}'')) = 500\<close>
  using POST_username_validation [of "example_platform (Some ''http://backend:3001/'') (\<lambda>q. None)"
      \<open>''{"username":"ab"}''\<close> "[(''username'', JStr ''ab'')]"]
    POST_username_validation [of "example_platform (Some ''http://backend:3001/'') (\<lambda>q. None)"
      "''{}''" "[]"]
    POST_username_validation [of "example_platform None (\<lambda>q. None)"
      \<open>''{"username":null}''\<close> "[(''username'', JNull)]"]
  by (simp add: example_platform_def example_parse_def generate_request_def remove_trailing_slash_def)

text \<open>
  C8 as the claim states it fails: the body \<^verbatim>\<open>{}\<close> has no username and passes the schema, but
  with \<^verbatim>\<open>BACKEND_URL\<close> not set the handler answers 500 and calls nothing, although the back
  end would have answered.
\<close>

theorem POST_forward_counterexample:
  \<open>JSON_parse (example_platform None (\<lambda>q. Some \<lparr>backendStatus = 200, responseText = ''{}''\<rparr>)) ''{}''
      = Some (JObj [])
   \<and> map_of [] ''username'' = (None :: json option)
   \<and> POST (example_platform None (\<lambda>q. Some \<lparr>backendStatus = 200, responseText = ''{}''\<rparr>)) ''{}''
      = ([], \<lparr>status = 500,
              content = JObj [(''error'', JStr ''Server configuration error: BACKEND_URL is not set.'')]\<rparr>)\<close>
  by (simp add: POST_def example_platform_def example_parse_def)


section \<open>Reading a message through the route\<close>

lemma find_SomeD: "find p xs = Some x \<Longrightarrow> p x \<and> x \<in> set xs"
  by (auto simp: find_Some_iff)

lemma same_address_same_row:
  assumes "distinct (map address xs)" "t \<in> set xs" "x \<in> set xs" "address x = address t"
  shows "x = t"
  using assms by (meson distinct_map inj_onD)

lemma same_id_same_message:
  assumes "distinct (map id_received xs)" "r \<in> set xs" "x \<in> set xs" "id_received x = id_received r"
  shows "x = r"
  using assms by (meson distinct_map inj_onD)

lemma get_message_cross_mailbox:
  assumes c: "constraints s"
    and a: "tA \<in> set (temporary_emails s)" and b: "tB \<in> set (temporary_emails s)" and ab: "tA \<noteq> tB"
    and r: "r \<in> set (received_emails s)" and own: "temp_email_id r = id_temporary tA"
  shows "get_message now (address tB) (id_received r) s = Inl NotFound"
proof (cases "resolve now (address tB) s")
  case (Inl e)
  then show ?thesis by (simp add: get_message_def)
next
  case (Inr t)
  then have "find (\<lambda>x. address x = address tB) (temporary_emails s) = Some t"
    by (simp add: resolve_def split: option.splits if_splits)
  from find_SomeD [OF this] have "address t = address tB" "t \<in> set (temporary_emails s)" by simp_all
  with c b have t: "t = tB"
    using same_address_same_row [of "temporary_emails s" tB t] by (simp add: constraints_def)
  from c a b ab have ids: "id_temporary tA \<noteq> id_temporary tB"
    using same_id_same_row [of "temporary_emails s" tB tA] by (auto simp: constraints_def)
  show ?thesis
  proof (cases "find (\<lambda>x. id_received x = id_received r) (received_emails s)")
    case None
    with Inr show ?thesis by (simp add: get_message_def)
  next
    case (Some r')
    from find_SomeD [OF this] have "id_received r' = id_received r" "r' \<in> set (received_emails s)"
      by simp_all
    with c r have "r' = r"
      using same_id_same_message [of "received_emails s" r r'] by (simp add: constraints_def)
    with Inr Some t own ids show ?thesis by (simp add: get_message_def)
  qed
qed

lemma email_answer_404:
  "status (email_answer pf (Some \<lparr>backendStatus = 404, responseText = t\<rparr>)) = 404"
  by (simp add: email_answer_def email_relay_def email_error_def ok_def NextResponse_json_def
        split: option.splits lookup.splits)

lemma stored_address_not_empty:
  assumes "constraints s" "t \<in> set (temporary_emails s)"
  shows "address t \<noteq> []"
proof -
  from assms have "match address_pattern (address t)"
    by (simp add: constraints_def list_all_iff check_passes_def address_format_def)
  then show ?thesis unfolding match_address_pattern by auto
qed

text \<open>
  C7. A and B are two address rows of a store that can be observed, and a stored message
  belongs to A. Then \<^verbatim>\<open>get_message\<close> for B's address and the message's id is \<^verbatim>\<open>NotFound\<close>, and
  the back end answers 404. When the route's \<^verbatim>\<open>fetch\<close> for B's address and an id reaches that
  answer, the route \<^verbatim>\<open>GET /api/emails/[id]\<close> makes that one call and responds with status 404;
  its response is a function of the 404 answer alone, so nothing of the message is in it.
\<close>

theorem cross_mailbox_read_not_found:
  assumes "tA \<in> set (temporary_emails (after ops))" and "tB \<in> set (temporary_emails (after ops))"
    and "tA \<noteq> tB"
    and "r \<in> set (received_emails (after ops))" and "temp_email_id r = id_temporary tA"
  shows "get_message now (address tB) (id_received r) (after ops) = Inl NotFound
       \<and> api_get_message encode now (address tB) (id_received r) (after ops)
           = \<lparr>backendStatus = 404, responseText = encode (Inl NotFound)\<rparr>
       \<and> (\<forall>pf id'. id' \<noteq> []
             \<and> fetch pf (email_request (address tB) id')
                 = Some (api_get_message encode now (address tB) (id_received r) (after ops))
           \<longrightarrow> GET pf id' (Some (address tB))
                 = ([email_request (address tB) id'],
                    email_answer pf (Some \<lparr>backendStatus = 404, responseText = encode (Inl NotFound)\<rparr>))
               \<and> status (snd (GET pf id' (Some (address tB)))) = 404)"
proof -
  have g: "get_message now (address tB) (id_received r) (after ops) = Inl NotFound"
    using constraints_after assms by (rule get_message_cross_mailbox)
  then have api: "api_get_message encode now (address tB) (id_received r) (after ops)
           = \<lparr>backendStatus = 404, responseText = encode (Inl NotFound)\<rparr>"
    by (simp add: api_get_message_def)
  have ne: "address tB \<noteq> []"
    using constraints_after assms(2) by (rule stored_address_not_empty)
  have route: "GET pf id' (Some (address tB))
                 = ([email_request (address tB) id'],
                    email_answer pf (Some \<lparr>backendStatus = 404, responseText = encode (Inl NotFound)\<rparr>))
               \<and> status (snd (GET pf id' (Some (address tB)))) = 404"
    if "id' \<noteq> []" "fetch pf (email_request (address tB) id')
                 = Some (api_get_message encode now (address tB) (id_received r) (after ops))"
    for pf id'
  proof -
    from that ne have "GET pf id' (Some (address tB))
                 = ([email_request (address tB) id'],
                    email_answer pf (Some \<lparr>backendStatus = 404, responseText = encode (Inl NotFound)\<rparr>))"
      unfolding api by (simp add: GET_def)
    then show ?thesis by (simp add: email_answer_404)
  qed
  from g api route show ?thesis by blast
qed

text \<open>
  The theorem on the example: the first address reads its message; the second address,
  asking for the same id, gets \<^verbatim>\<open>NotFound\<close>, and the route answers 404 with the error alone.
\<close>

theorem cross_mailbox_read_not_found_witness:
  \<open>example_temporary_email 1 ''foo123@example.com'' (Some True) \<in> set (temporary_emails (after example_ops))
   \<and> example_temporary_email 2 ''bar_456@example.com'' (Some True) \<in> set (temporary_emails (after example_ops))
   \<and> example_received_email 3 1 (Some 5) \<in> set (received_emails (after example_ops))
   \<and> temp_email_id (example_received_email 3 1 (Some 5))
       = id_temporary (example_temporary_email 1 ''foo123@example.com'' (Some True))
   \<and> get_message 1759439327000010 ''foo123@example.com'' 3 (after example_ops)
       = Inr (example_received_email 3 1 (Some 5))
   \<and> get_message 1759439327000010 ''bar_456@example.com'' 3 (after example_ops) = Inl NotFound
   \<and> GET (example_platform None
            (example_fetch ''http://127.0.0.1:3001/api/email/bar_456@example.com/00000000-0000-0000-0000-000000000003''
               (api_get_message example_encode 1759439327000010 ''bar_456@example.com'' 3 (after example_ops))))
         ''00000000-0000-0000-0000-000000000003'' (Some ''bar_456@example.com'')
       = ([email_request ''bar_456@example.com'' ''00000000-0000-0000-0000-000000000003''],
          \<lparr>status = 404, content = JObj [(''error'', JStr ''Email not found'')]\<rparr>)\<close>
proof -
  let ?a = "example_temporary_email 1 ''foo123@example.com'' (Some True)"
  let ?b = "example_temporary_email 2 ''bar_456@example.com'' (Some True)"
  let ?r = "example_received_email 3 1 (Some 5)"
  let ?id = "''00000000-0000-0000-0000-000000000003''"
  let ?pf = "example_platform None
            (example_fetch ''http://127.0.0.1:3001/api/email/bar_456@example.com/00000000-0000-0000-0000-000000000003''
               (api_get_message example_encode 1759439327000010 ''bar_456@example.com'' 3 (after example_ops)))"
  have a: "?a \<in> set (temporary_emails (after example_ops))"
    and b: "?b \<in> set (temporary_emails (after example_ops))"
    and r: "?r \<in> set (received_emails (after example_ops))"
    unfolding after_example_ops by (simp_all add: example_store_def)
  have ab: "?a \<noteq> ?b" by (simp add: example_temporary_email_def)
  have own: "temp_email_id ?r = id_temporary ?a"
    by (simp add: example_temporary_email_def example_received_email_def)
  have adr: "address ?b = ''bar_456@example.com''" and idr: "id_received ?r = 3"
    by (simp_all add: example_temporary_email_def example_received_email_def)
  have mine: "get_message 1759439327000010 ''foo123@example.com'' 3 (after example_ops) = Inr ?r"
    unfolding after_example_ops
    by (simp add: get_message_def resolve_def active_def example_store_def
          example_temporary_email_def example_received_email_def)
  have f: "fetch ?pf (email_request (address ?b) ?id)
         = Some (api_get_message example_encode 1759439327000010 (address ?b) (id_received ?r) (after example_ops))"
    unfolding adr idr by (simp add: example_platform_def example_fetch_def email_request_def)
  note th = cross_mailbox_read_not_found [OF a b ab r own, of 1759439327000010 example_encode]
  from th have g: "get_message 1759439327000010 ''bar_456@example.com'' 3 (after example_ops) = Inl NotFound"
    unfolding adr idr by blast
  from th f have "GET ?pf ?id (Some (address ?b))
       = ([email_request (address ?b) ?id],
          email_answer ?pf (Some \<lparr>backendStatus = 404, responseText = example_encode (Inl NotFound)\<rparr>))"
    by blast
  moreover have "email_answer ?pf (Some \<lparr>backendStatus = 404, responseText = example_encode (Inl NotFound)\<rparr>)
       = \<lparr>status = 404, content = JObj [(''error'', JStr ''Email not found'')]\<rparr>"
    by (simp add: email_answer_def email_relay_def email_error_def ok_def NextResponse_json_def
          example_encode_def example_platform_def example_parse_def)
  ultimately have route: "GET ?pf ?id (Some ''bar_456@example.com'')
       = ([email_request ''bar_456@example.com'' ?id],
          \<lparr>status = 404, content = JObj [(''error'', JStr ''Email not found'')]\<rparr>)"
    unfolding adr by simp
  from a b r own mine g route show ?thesis by (intro conjI)
qed



section \<open>The message view\<close>

text \<open>
  C9, as \<^verbatim>\<open>renderBody\<close> has it. When each body is absent or the empty string, the view shows
  the paragraph "This email has no content.". An HTML body that is present and not empty is
  rendered as HTML. Otherwise a plain body that is present and not empty is rendered as
  text.
\<close>

theorem renderBody_cases:
  "((email_body_html e = None \<or> email_body_html e = Some [])
      \<and> (email_body_plain e = None \<or> email_body_plain e = Some [])
     \<longrightarrow> renderBody e = P_children ''text-zinc-500 italic'' ''This email has no content.'')
   \<and> (\<forall>h. email_body_html e = Some h \<and> h \<noteq> []
     \<longrightarrow> renderBody e = Div_innerHTML ''prose prose-invert prose-sm md:prose-base max-w-none'' h)
   \<and> (\<forall>p. (email_body_html e = None \<or> email_body_html e = Some [])
       \<and> email_body_plain e = Some p \<and> p \<noteq> []
     \<longrightarrow> renderBody e = P_children ''whitespace-pre-wrap'' p)"
  by (auto simp: renderBody_def)

theorem renderBody_cases_witness:
  "renderBody (example_email None None) = P_children ''text-zinc-500 italic'' ''This email has no content.''
   \<and> renderBody (example_email (Some ''hello'') (Some ''<b>hello</b>''))
      = Div_innerHTML ''prose prose-invert prose-sm md:prose-base max-w-none'' ''<b>hello</b>''
   \<and> renderBody (example_email (Some ''hello'') None) = P_children ''whitespace-pre-wrap'' ''hello''"
  using renderBody_cases [of "example_email None None"]
    renderBody_cases [of "example_email (Some ''hello'') (Some ''<b>hello</b>'')"]
    renderBody_cases [of "example_email (Some ''hello'') None"]
  by (simp add: example_email_def)

text \<open>
  C9 as the claim states it fails: an HTML body that is present but empty is not rendered
  as HTML; the plain body is shown instead.
\<close>

theorem renderBody_present_html_counterexample:
  "email_body_html (example_email (Some ''hello'') (Some '''')) = Some ''''
   \<and> renderBody (example_email (Some ''hello'') (Some '''')) = P_children ''whitespace-pre-wrap'' ''hello''
   \<and> renderBody (example_email (Some ''hello'') (Some ''''))
      \<noteq> Div_innerHTML ''prose prose-invert prose-sm md:prose-base max-w-none'' ''''"
  by (simp add: example_email_def renderBody_def)

end
